theory Spec2Isabelle
  imports Main "HOL-Library.Word"
begin

unbundle bit_operations_syntax

section \<open>Machine types and status codes\<close>

type_synonym uint8_t = "8 word"
type_synonym uint16_t = "16 word"
type_synonym uint32_t = "32 word"
type_synonym npage_t = "32 word"
type_synonym chidb_key_t = "32 word"

text \<open>
  The functions of btree.c return an \<open>int\<close> status, \<open>CHIDB_OK\<close> or an error code. A
  result is a sum: \<open>Inr\<close> is \<open>CHIDB_OK\<close> together with the out-parameters, \<open>Inl\<close> is every
  other way of leaving the function. Besides the status codes of section 7 of the
  specification there are five ways in which the C code leaves a function without a
  status: \<open>exit(1)\<close> in the default branch of a switch, an access outside the page buffer,
  a \<open>memcpy\<close> whose source and destination overlap, a read of a union member other than
  the one stored, and the end of a non-void function reached without a return statement.
\<close>

datatype error =
    CHIDB_ECORRUPTHEADER
  | CHIDB_EPAGENO
  | CHIDB_ECELLNO
  | CHIDB_ENOTFOUND
  | CHIDB_EDUPLICATE
  | CHIDB_ENOMEM
  | CHIDB_EIO
  | EXIT_1
  | OUT_OF_BOUNDS
  | MEMCPY_OVERLAP
  | UNION_MEMBER
  | NO_RETURN_VALUE

definition bnd :: "error + 'a \<Rightarrow> ('a \<Rightarrow> error + 'b) \<Rightarrow> error + 'b" where
  "bnd r k = (case r of Inl e \<Rightarrow> Inl e | Inr x \<Rightarrow> k x)"

section \<open>Memory: the page buffer\<close>

text \<open>
  A buffer is a list of bytes and a pointer into it is an offset. Offsets are integers,
  since the code subtracts sizes from them; an access that leaves the buffer on either
  side is reported as \<open>OUT_OF_BOUNDS\<close>.
\<close>

definition rd :: "uint8_t list \<Rightarrow> int \<Rightarrow> nat \<Rightarrow> error + uint8_t list" where
  "rd m off n =
     (if 0 \<le> off \<and> nat off + n \<le> length m then Inr (take n (drop (nat off) m))
      else Inl OUT_OF_BOUNDS)"

definition wr :: "uint8_t list \<Rightarrow> int \<Rightarrow> uint8_t list \<Rightarrow> error + uint8_t list" where
  "wr m off bs =
     (if 0 \<le> off \<and> nat off + length bs \<le> length m
      then Inr (take (nat off) m @ bs @ drop (nat off + length bs) m)
      else Inl OUT_OF_BOUNDS)"

text \<open>
  Modelled from the spec: the byte order helpers \<open>get2byte\<close>, \<open>put2byte\<close>, \<open>get4byte\<close>,
  \<open>put4byte\<close> of util.c, which is not among the sources. Section 6 of the specification
  says they are big-endian.
\<close>

definition enc16 :: "uint16_t \<Rightarrow> uint8_t list" where
  "enc16 v = [ucast (drop_bit 8 v), ucast v]"

definition dec16 :: "uint8_t list \<Rightarrow> uint16_t" where
  "dec16 bs = push_bit 8 (ucast (bs ! 0)) OR ucast (bs ! 1)"

definition enc32 :: "uint32_t \<Rightarrow> uint8_t list" where
  "enc32 v = [ucast (drop_bit 24 v), ucast (drop_bit 16 v), ucast (drop_bit 8 v), ucast v]"

definition dec32 :: "uint8_t list \<Rightarrow> uint32_t" where
  "dec32 bs = push_bit 24 (ucast (bs ! 0)) OR push_bit 16 (ucast (bs ! 1))
                OR push_bit 8 (ucast (bs ! 2)) OR ucast (bs ! 3)"

definition get2byte :: "uint8_t list \<Rightarrow> int \<Rightarrow> error + uint16_t" where
  "get2byte m off = bnd (rd m off 2) (\<lambda>bs. Inr (dec16 bs))"

definition put2byte :: "uint8_t list \<Rightarrow> int \<Rightarrow> uint16_t \<Rightarrow> error + uint8_t list" where
  "put2byte m off v = wr m off (enc16 v)"

definition get4byte :: "uint8_t list \<Rightarrow> int \<Rightarrow> error + uint32_t" where
  "get4byte m off = bnd (rd m off 4) (\<lambda>bs. Inr (dec32 bs))"

definition put4byte :: "uint8_t list \<Rightarrow> int \<Rightarrow> uint32_t \<Rightarrow> error + uint8_t list" where
  "put4byte m off v = wr m off (enc32 v)"

text \<open>
  The varint codec (\<open>getVarint32\<close>, \<open>putVarint32\<close>) is in util.c as well. It is a parameter
  of the model: \<open>putVarint32\<close> gives the bytes that the call stores at its pointer,
  \<open>getVarint32\<close> decodes the four bytes that the cell formats reserve for a varint.
\<close>

record varint =
  putVarint32 :: "uint32_t \<Rightarrow> uint8_t list"
  getVarint32 :: "uint8_t list \<Rightarrow> uint32_t"

definition put_varint :: "varint \<Rightarrow> uint8_t list \<Rightarrow> int \<Rightarrow> uint32_t \<Rightarrow> error + uint8_t list" where
  "put_varint vc m off v = wr m off (putVarint32 vc v)"

definition get_varint :: "varint \<Rightarrow> uint8_t list \<Rightarrow> int \<Rightarrow> error + uint32_t" where
  "get_varint vc m off = bnd (rd m off 4) (\<lambda>bs. Inr (getVarint32 vc bs))"

text \<open>
  Modelled from the spec: one codec to run the model on concrete inputs, since util.c is
  not among the sources. It is big-endian with seven value bits per byte and a
  continuation bit on all but the last byte, and always fills the four reserved bytes.
\<close>

definition chidb_varint :: varint where
  "chidb_varint =
     \<lparr> putVarint32 = (\<lambda>v. [ucast (drop_bit 21 v AND 0x7F) OR 0x80,
                            ucast (drop_bit 14 v AND 0x7F) OR 0x80,
                            ucast (drop_bit 7 v AND 0x7F) OR 0x80,
                            ucast (v AND 0x7F)]),
       getVarint32 = (\<lambda>bs. push_bit 21 (ucast (bs ! 0 AND 0x7F))
                            OR push_bit 14 (ucast (bs ! 1 AND 0x7F))
                            OR push_bit 7 (ucast (bs ! 2 AND 0x7F))
                            OR ucast (bs ! 3 AND 0x7F)) \<rparr>"

section \<open>Nodes and cells\<close>

text \<open>
  Modelled from the spec: the page types and cell sizes are macros of btree.h, which is
  not among the sources; section 3 of the specification gives their values.
\<close>

definition PGTYPE_TABLE_INTERNAL :: uint8_t where "PGTYPE_TABLE_INTERNAL = 0x05"
definition PGTYPE_TABLE_LEAF :: uint8_t where "PGTYPE_TABLE_LEAF = 0x0D"
definition PGTYPE_INDEX_INTERNAL :: uint8_t where "PGTYPE_INDEX_INTERNAL = 0x02"
definition PGTYPE_INDEX_LEAF :: uint8_t where "PGTYPE_INDEX_LEAF = 0x0A"

definition TABLELEAFCELL_SIZE_WITHOUTDATA :: int where "TABLELEAFCELL_SIZE_WITHOUTDATA = 8"
definition TABLEINTCELL_SIZE :: int where "TABLEINTCELL_SIZE = 8"
definition INDEXINTCELL_SIZE :: int where "INDEXINTCELL_SIZE = 16"
definition INDEXLEAFCELL_SIZE :: int where "INDEXLEAFCELL_SIZE = 12"

text \<open>
  Modelled from the spec: the structs \<open>MemPage\<close>, \<open>BTreeNode\<close> and \<open>BTreeCell\<close> are
  declared in pager.h and btree.h, which are not among the sources. The fields are those
  that btree.c uses, with the widths that section 3 of the specification gives them.
\<close>

record MemPage =
  npage :: npage_t
  data :: "uint8_t list"

text \<open>
  \<open>celloffset_array\<close> is a pointer into \<open>page->data\<close>: the offset of the array from the
  start of the page buffer.
\<close>

record BTreeNode =
  page :: MemPage
  type :: uint8_t
  free_offset :: uint16_t
  n_cells :: uint16_t
  cells_offset :: uint16_t
  right_page :: npage_t
  celloffset_array :: int

text \<open>
  The payload pointer of a table leaf cell. \<open>InPage p\<close> points into the page buffer of
  the node that the cell is used with, at offset \<open>p\<close>: it is read from the bytes that
  the buffer holds at the moment of the read. \<open>InBuffer b p\<close> points at offset \<open>p\<close> of
  memory outside that page buffer, which holds the bytes \<open>b\<close>. \<open>deref\<close> reads through a
  pointer, given the bytes of the page buffer.
\<close>

datatype pointer = InPage int | InBuffer "uint8_t list" int

fun deref :: "uint8_t list \<Rightarrow> pointer \<Rightarrow> nat \<Rightarrow> error + uint8_t list" where
  "deref m (InPage p) n = rd m p n"
| "deref m (InBuffer b p) n = rd b p n"

text \<open>
  \<open>memcpy\<close> of \<open>n\<close> bytes into the page buffer at \<open>dst\<close>. The source is read from the
  buffer as it is when the call is made; a source in the page that overlaps the
  destination is undefined behaviour.
\<close>

fun memcpy :: "uint8_t list \<Rightarrow> int \<Rightarrow> pointer \<Rightarrow> nat \<Rightarrow> error + uint8_t list" where
  "memcpy m dst (InPage p) n =
     (if 0 < n \<and> p < dst + int n \<and> dst < p + int n then Inl MEMCPY_OVERLAP
      else bnd (rd m p n) (\<lambda>bytes. wr m dst bytes))"
| "memcpy m dst (InBuffer b p) n = bnd (rd b p n) (\<lambda>bytes. wr m dst bytes)"

text \<open>
  The union \<open>fields\<close> of a \<open>BTreeCell\<close>. In the record, the members \<open>type\<close> and \<open>fields\<close>
  of the struct are \<open>ctype\<close> and \<open>cfields\<close>.
\<close>

datatype fields =
    tableInternal npage_t
  | tableLeaf uint32_t pointer
  | indexInternal chidb_key_t npage_t
  | indexLeaf chidb_key_t

record BTreeCell =
  ctype :: uint8_t
  key :: chidb_key_t
  cfields :: fields

text \<open>
  The switch of \<open>chidb_Btree_getCell\<close>: decodes the cell at offset \<open>d\<close> of the page
  bytes \<open>m\<close>, by the type of the node.
\<close>

definition decode_cell :: "varint \<Rightarrow> uint8_t \<Rightarrow> uint8_t list \<Rightarrow> int \<Rightarrow> error + BTreeCell" where
  "decode_cell vc ty m d =
     (if ty = PGTYPE_TABLE_INTERNAL then
        bnd (get4byte m d) (\<lambda>cp.
        bnd (get_varint vc m (d + 4)) (\<lambda>k.
          Inr \<lparr> ctype = PGTYPE_TABLE_INTERNAL, key = k, cfields = tableInternal cp \<rparr>))
      else if ty = PGTYPE_TABLE_LEAF then
        bnd (get_varint vc m d) (\<lambda>sz.
        bnd (get_varint vc m (d + 4)) (\<lambda>k.
          Inr \<lparr> ctype = PGTYPE_TABLE_LEAF, key = k,
                cfields = tableLeaf sz (InPage (d + TABLELEAFCELL_SIZE_WITHOUTDATA)) \<rparr>))
      else if ty = PGTYPE_INDEX_INTERNAL then
        bnd (get4byte m (d + 8)) (\<lambda>k.
        bnd (get4byte m (d + 12)) (\<lambda>pk.
        bnd (get4byte m d) (\<lambda>cp.
          Inr \<lparr> ctype = PGTYPE_INDEX_INTERNAL, key = k, cfields = indexInternal pk cp \<rparr>)))
      else if ty = PGTYPE_INDEX_LEAF then
        bnd (get4byte m (d + 4)) (\<lambda>k.
        bnd (get4byte m (d + 8)) (\<lambda>pk.
          Inr \<lparr> ctype = PGTYPE_INDEX_LEAF, key = k, cfields = indexLeaf pk \<rparr>))
      else Inl EXIT_1)"

text \<open>
  \<open>chidb_Btree_getCell\<close>. The cell number is an integer: \<open>ncell_t\<close> is declared in
  btree.h, and the integers cover a signed and an unsigned declaration. The offset of the
  cell is read from the offset array before the cell number is checked, as in the source.
\<close>

definition chidb_Btree_getCell :: "varint \<Rightarrow> BTreeNode \<Rightarrow> int \<Rightarrow> error + BTreeCell" where
  "chidb_Btree_getCell vc btn ncell =
     bnd (get2byte (data (page btn)) (celloffset_array btn + ncell * 2)) (\<lambda>off.
       if ncell < 0 \<or> ncell > uint (n_cells btn) then Inl CHIDB_ECELLNO
       else decode_cell vc (type btn) (data (page btn)) (uint off))"

definition hexg :: "uint8_t list" where
  "hexg = [0x0B, 0x03, 0x04, 0x04]"

text \<open>
  The switch of \<open>chidb_Btree_insertCell\<close>: lays the cell out below \<open>cells_offset\<close> and
  gives the page bytes and the new \<open>cells_offset\<close>. The branch is chosen by the type of
  the node, and reads the union member of that type. The payload of a table leaf cell is
  copied after the two varints are written, from the memory as it is then.
\<close>

definition layout_cell ::
  "varint \<Rightarrow> BTreeNode \<Rightarrow> BTreeCell \<Rightarrow> error + (uint8_t list \<times> uint16_t)" where
  "layout_cell vc btn cell =
     (let m = data (page btn); co = cells_offset btn in
      if type btn = PGTYPE_TABLE_LEAF then
        (case cfields cell of
           tableLeaf data_size src \<Rightarrow>
             (let d = uint co - uint data_size - TABLELEAFCELL_SIZE_WITHOUTDATA in
              bnd (put_varint vc m d data_size) (\<lambda>m1.
              bnd (put_varint vc m1 (d + 4) (key cell)) (\<lambda>m2.
              bnd (memcpy m2 (d + 8) src (unat data_size)) (\<lambda>m3.
                Inr (m3, co - ucast (data_size + 8))))))
         | _ \<Rightarrow> Inl UNION_MEMBER)
      else if type btn = PGTYPE_TABLE_INTERNAL then
        (case cfields cell of
           tableInternal child_page \<Rightarrow>
             (let d = uint co - TABLEINTCELL_SIZE in
              bnd (put4byte m d child_page) (\<lambda>m1.
              bnd (put_varint vc m1 (d + 4) (key cell)) (\<lambda>m2.
                Inr (m2, co - 8))))
         | _ \<Rightarrow> Inl UNION_MEMBER)
      else if type btn = PGTYPE_INDEX_INTERNAL then
        (case cfields cell of
           indexInternal keyPk child_page \<Rightarrow>
             (let d = uint co - INDEXINTCELL_SIZE in
              bnd (put4byte m d child_page) (\<lambda>m1.
              bnd (wr m1 (d + 4) hexg) (\<lambda>m2.
              bnd (put4byte m2 (d + 8) (key cell)) (\<lambda>m3.
              bnd (put4byte m3 (d + 12) keyPk) (\<lambda>m4.
                Inr (m4, co - 16))))))
         | _ \<Rightarrow> Inl UNION_MEMBER)
      else if type btn = PGTYPE_INDEX_LEAF then
        (case cfields cell of
           indexLeaf keyPk \<Rightarrow>
             (let d = uint co - INDEXLEAFCELL_SIZE in
              bnd (wr m d hexg) (\<lambda>m1.
              bnd (put4byte m1 (d + 4) (key cell)) (\<lambda>m2.
              bnd (put4byte m2 (d + 8) keyPk) (\<lambda>m3.
                Inr (m3, co - 12)))))
         | _ \<Rightarrow> Inl UNION_MEMBER)
      else Inl EXIT_1)"

text \<open>
  \<open>chidb_Btree_insertCell\<close>. The \<open>memmove\<close> of the tail of the offset array is a read of
  the tail followed by a write of it two bytes further on. Line 520 of the source reads
  \<open>eturn CHIDB_ECELLNO;\<close>, which is taken as the \<open>return\<close> that the doc comment of the
  function describes.
\<close>

definition chidb_Btree_insertCell ::
  "varint \<Rightarrow> BTreeNode \<Rightarrow> int \<Rightarrow> BTreeCell \<Rightarrow> error + BTreeNode" where
  "chidb_Btree_insertCell vc btn ncell cell =
     (if ncell < 0 \<or> ncell > uint (n_cells btn) then Inl CHIDB_ECELLNO
      else
        bnd (layout_cell vc btn cell) (\<lambda>(m1, co).
        bnd (rd m1 (celloffset_array btn + ncell * 2)
                (nat ((uint (n_cells btn) - ncell) * 2))) (\<lambda>tail.
        bnd (wr m1 (celloffset_array btn + ncell * 2 + 2) tail) (\<lambda>m2.
        bnd (put2byte m2 (celloffset_array btn + ncell * 2) co) (\<lambda>m3.
          Inr (btn\<lparr> page := (page btn)\<lparr> data := m3 \<rparr>,
                    cells_offset := co,
                    n_cells := n_cells btn + 1,
                    free_offset := free_offset btn + 2 \<rparr>))))))"

section \<open>The pager\<close>

text \<open>
  Modelled from the spec: the pager (pager.c and pager.h are not among the sources), after
  the contract of section 6 of the specification. The file is a list of bytes, page
  \<open>n\<close> being the bytes from \<open>(n - 1) * page_size\<close> on. \<open>allocatePage\<close> extends the file by
  one page of zero bytes and returns its number, \<open>readPage\<close> gives a buffer of its own
  with a copy of the page, \<open>writePage\<close> stores the buffer in the file. \<open>io_failing\<close> says
  that the device rejects writes; \<open>writePage\<close> then reports \<open>CHIDB_EIO\<close>. Allocating
  memory never fails.
\<close>

record Pager =
  f :: "uint8_t list"
  page_size :: uint16_t
  n_pages :: npage_t
  io_failing :: bool

text \<open>
  Modelled from the spec: the macro \<open>DEFAULT_PAGE_SIZE\<close> is not defined in the sources;
  section 4.1 of the specification gives the default page size as 1024.
\<close>

definition DEFAULT_PAGE_SIZE :: uint16_t where "DEFAULT_PAGE_SIZE = 1024"

definition pad_to :: "nat \<Rightarrow> uint8_t list \<Rightarrow> uint8_t list" where
  "pad_to n bs = bs @ replicate (n - length bs) 0"

definition chidb_Pager_open :: "uint8_t list \<Rightarrow> Pager" where
  "chidb_Pager_open contents =
     \<lparr> f = contents, page_size = 0, n_pages = 0, io_failing = False \<rparr>"

definition chidb_Pager_setPageSize :: "Pager \<Rightarrow> uint16_t \<Rightarrow> Pager" where
  "chidb_Pager_setPageSize p pagesize =
     p\<lparr> page_size := pagesize,
        n_pages := (if pagesize = 0 then 0 else of_nat (length (f p) div unat pagesize)) \<rparr>"

definition chidb_Pager_readHeader :: "Pager \<Rightarrow> error + uint8_t list" where
  "chidb_Pager_readHeader p = (if 100 \<le> length (f p) then Inr (take 100 (f p)) else Inl CHIDB_EIO)"

definition chidb_Pager_allocatePage :: "Pager \<Rightarrow> npage_t \<times> Pager" where
  "chidb_Pager_allocatePage p =
     (n_pages p + 1,
      p\<lparr> n_pages := n_pages p + 1,
         f := pad_to ((unat (n_pages p) + 1) * unat (page_size p)) (f p) \<rparr>)"

definition chidb_Pager_readPage :: "Pager \<Rightarrow> npage_t \<Rightarrow> error + MemPage" where
  "chidb_Pager_readPage p n =
     (if n = 0 \<or> n_pages p < n then Inl CHIDB_EPAGENO
      else Inr \<lparr> npage = n,
                 data = take (unat (page_size p))
                          (drop ((unat n - 1) * unat (page_size p))
                             (pad_to (unat n * unat (page_size p)) (f p))) \<rparr>)"

definition chidb_Pager_writePage :: "Pager \<Rightarrow> MemPage \<Rightarrow> (error + unit) \<times> Pager" where
  "chidb_Pager_writePage p pg =
     (if io_failing p then (Inl CHIDB_EIO, p)
      else
        (let ps = unat (page_size p); start = (unat (npage pg) - 1) * ps;
             old = pad_to (start + ps) (f p)
         in (Inr (), p\<lparr> f := take start old @ pad_to ps (take ps (data pg)) @ drop (start + ps) old \<rparr>)))"

definition chidb_Pager_releaseMemPage :: "Pager \<Rightarrow> MemPage \<Rightarrow> error + unit" where
  "chidb_Pager_releaseMemPage p pg = Inr ()"

section \<open>The B-tree file\<close>

text \<open>The \<open>db\<close> back-pointer of the handle plays no part in btree.c and is left out.\<close>

record BTree =
  pager :: Pager

definition get1byte :: "uint8_t list \<Rightarrow> int \<Rightarrow> error + uint8_t" where
  "get1byte m off = bnd (rd m off 1) (\<lambda>bs. Inr (bs ! 0))"

definition put1byte :: "uint8_t list \<Rightarrow> int \<Rightarrow> uint8_t \<Rightarrow> error + uint8_t list" where
  "put1byte m off v = wr m off [v]"

text \<open>\<open>chidb_Btree_getNodeByPage\<close>.\<close>

definition chidb_Btree_getNodeByPage :: "BTree \<Rightarrow> npage_t \<Rightarrow> error + BTreeNode" where
  "chidb_Btree_getNodeByPage bt n =
     bnd (chidb_Pager_readPage (pager bt) n) (\<lambda>pg.
       let m = data pg; d = (if n = 1 then 100 else 0) in
       bnd (get1byte m d) (\<lambda>ty.
       bnd (get2byte m (d + 1)) (\<lambda>fo.
       bnd (get2byte m (d + 3)) (\<lambda>nc.
       bnd (get2byte m (d + 5)) (\<lambda>co.
       bnd (if ty = 0x05 \<or> ty = 0x02 then get4byte m (d + 8) else Inr 0) (\<lambda>rp.
         Inr \<lparr> page = pg, type = ty, free_offset = fo, n_cells = nc, cells_offset = co,
               right_page = rp,
               celloffset_array = d + (if ty = 0x05 \<or> ty = 0x02 then 12 else 8) \<rparr>))))))"

definition chidb_Btree_freeMemNode :: "BTree \<Rightarrow> BTreeNode \<Rightarrow> error + unit" where
  "chidb_Btree_freeMemNode bt btn = chidb_Pager_releaseMemPage (pager bt) (page btn)"

text \<open>The sixteen bytes that \<open>sprintf\<close> stores: the format string and its terminator.\<close>

definition magic :: "uint8_t list" where
  "magic = map of_char ''SQLite format 3'' @ [0]"

text \<open>
  The block of \<open>chidb_Btree_initEmptyNode\<close> that writes the file header into page 1. The
  offsets are those that the pointer \<open>data\<close> goes through.
\<close>

definition init_file_header :: "uint8_t list \<Rightarrow> uint16_t \<Rightarrow> error + uint8_t list" where
  "init_file_header m pgsize =
     bnd (wr m 0 magic) (\<lambda>m.
     bnd (put2byte m 16 pgsize) (\<lambda>m.
     bnd (put1byte m 18 0x01) (\<lambda>m.
     bnd (put1byte m 19 0x01) (\<lambda>m.
     bnd (put1byte m 20 0x00) (\<lambda>m.
     bnd (put1byte m 21 0x40) (\<lambda>m.
     bnd (put1byte m 22 0x20) (\<lambda>m.
     bnd (put1byte m 23 0x20) (\<lambda>m.
     bnd (put4byte m 24 0) (\<lambda>m.
     bnd (put4byte m 32 0) (\<lambda>m.
     bnd (put4byte m 36 0) (\<lambda>m.
     bnd (put4byte m 40 0) (\<lambda>m.
     bnd (put4byte m 44 1) (\<lambda>m.
     bnd (put4byte m 48 20000) (\<lambda>m.
     bnd (put4byte m 52 0) (\<lambda>m.
     bnd (put4byte m 56 1) (\<lambda>m.
     bnd (put4byte m 60 0) (\<lambda>m.
          put4byte m 64 0)))))))))))))))))"

text \<open>
  Functions that use the pager return their result together with the handle, whose pager
  holds the file.
\<close>

definition chidb_Btree_initEmptyNode ::
  "BTree \<Rightarrow> npage_t \<Rightarrow> uint8_t \<Rightarrow> (error + unit) \<times> BTree" where
  "chidb_Btree_initEmptyNode bt n ty =
     (case chidb_Pager_readPage (pager bt) n of
        Inl st \<Rightarrow> (Inl st, bt)
      | Inr pg \<Rightarrow>
          (let d = (if n = 1 then 100 else 0);
               written =
                 bnd (if n = 1 then init_file_header (data pg) (page_size (pager bt))
                      else Inr (data pg)) (\<lambda>m.
                 bnd (put1byte m d ty) (\<lambda>m.
                 bnd (put2byte m (d + 1)
                        ((if ty = 0x05 \<or> ty = 0x02 then 12 else 8) + (if n = 1 then 100 else 0))) (\<lambda>m.
                 bnd (put2byte m (d + 3) 0) (\<lambda>m.
                 bnd (put2byte m (d + 5) (page_size (pager bt))) (\<lambda>m.
                 bnd (put1byte m (d + 7) 0) (\<lambda>m.
                   if ty = 0x05 \<or> ty = 0x02 then put4byte m (d + 8) 0 else Inr m))))))
           in case written of
                Inl e \<Rightarrow> (Inl e, bt)
              | Inr m \<Rightarrow>
                  (case chidb_Pager_writePage (pager bt) (pg\<lparr> data := m \<rparr>) of
                     (Inl st, p) \<Rightarrow> (Inl st, bt\<lparr> pager := p \<rparr>)
                   | (Inr u, p) \<Rightarrow>
                       (chidb_Pager_releaseMemPage p (pg\<lparr> data := m \<rparr>), bt\<lparr> pager := p \<rparr>))))"

definition chidb_Btree_newNode :: "BTree \<Rightarrow> uint8_t \<Rightarrow> (error + npage_t) \<times> BTree" where
  "chidb_Btree_newNode bt ty =
     (case chidb_Pager_allocatePage (pager bt) of
        (n, p) \<Rightarrow>
          (case chidb_Btree_initEmptyNode (bt\<lparr> pager := p \<rparr>) n ty of
             (st, bt') \<Rightarrow> (bnd st (\<lambda>u. Inr n), bt')))"

text \<open>
  \<open>chidb_Btree_writeNode\<close>. The status of \<open>chidb_Pager_writePage\<close> is dropped and
  \<open>CHIDB_OK\<close> is returned, as in the source.
\<close>

definition chidb_Btree_writeNode :: "BTree \<Rightarrow> BTreeNode \<Rightarrow> (error + unit) \<times> BTree" where
  "chidb_Btree_writeNode bt btn =
     (let d = (if npage (page btn) = 1 then 100 else 0);
          written =
            bnd (put1byte (data (page btn)) d (type btn)) (\<lambda>m.
            bnd (put2byte m (d + 1) (free_offset btn)) (\<lambda>m.
            bnd (put2byte m (d + 3) (n_cells btn)) (\<lambda>m.
            bnd (put2byte m (d + 5) (cells_offset btn)) (\<lambda>m.
              if type btn = 0x05 \<or> type btn = 0x02 then put4byte m (d + 8) (right_page btn)
              else Inr m))))
      in case written of
           Inl e \<Rightarrow> (Inl e, bt)
         | Inr m \<Rightarrow>
             (case chidb_Pager_writePage (pager bt) ((page btn)\<lparr> data := m \<rparr>) of
                (st, p) \<Rightarrow> (Inr (), bt\<lparr> pager := p \<rparr>)))"

text \<open>
  \<open>chidb_Btree_open\<close>, given the contents of the file that the name stands for, empty if
  there is no such file. \<open>memcmp\<close> is true when the two blocks differ.
\<close>

definition memcmp :: "uint8_t list \<Rightarrow> nat \<Rightarrow> uint8_t list \<Rightarrow> nat \<Rightarrow> bool" where
  "memcmp a off b n = (take n (drop off a) \<noteq> take n b)"

definition h12 :: "uint8_t list" where "h12 = [0x01, 0x01, 0x00, 0x40, 0x20, 0x20]"
definition h0 :: "uint8_t list" where "h0 = [0, 0, 0, 0]"
definition h1 :: "uint8_t list" where "h1 = [0, 0, 0, 1]"

definition chidb_Btree_open :: "uint8_t list \<Rightarrow> error + BTree" where
  "chidb_Btree_open contents =
     (let p = chidb_Pager_open contents in
      if length (f p) = 0 then
        (let p = (chidb_Pager_setPageSize p DEFAULT_PAGE_SIZE)\<lparr> n_pages := 0 \<rparr> in
         case chidb_Btree_newNode \<lparr> pager = p \<rparr> PGTYPE_TABLE_LEAF of
           (Inl st, bt) \<Rightarrow> Inl st
         | (Inr n, bt) \<Rightarrow> Inr bt)
      else
        bnd (chidb_Pager_readHeader p) (\<lambda>phdr.
          if memcmp phdr 0 magic 16 \<or>
             memcmp phdr 0x12 h12 6 \<or>
             memcmp phdr 0x20 h0 4 \<or>
             memcmp phdr 0x24 h0 4 \<or>
             memcmp phdr 0x2c h1 4 \<or>
             memcmp phdr 0x34 h0 4 \<or>
             memcmp phdr 0x38 h1 4 \<or>
             memcmp phdr 0x40 h0 4 \<or>
             dec32 (take 4 (drop 0x30 phdr)) = 20000
          then Inl CHIDB_ECORRUPTHEADER
          else Inr \<lparr> pager = chidb_Pager_setPageSize p (dec16 (take 2 (drop 0x10 phdr))) \<rparr>))"

section \<open>Find\<close>

text \<open>The status codes proper, as opposed to the other ways of leaving a function.\<close>

fun is_status :: "error \<Rightarrow> bool" where
  "is_status EXIT_1 = False"
| "is_status OUT_OF_BOUNDS = False"
| "is_status MEMCPY_OVERLAP = False"
| "is_status UNION_MEMBER = False"
| "is_status NO_RETURN_VALUE = False"
| "is_status st = True"

text \<open>
  What the loop over the cells of a node in \<open>chidb_Btree_find\<close> comes to: a return, or a
  recursive call on another page.
\<close>


datatype find_step =
    Return "error + (uint8_t list \<times> uint16_t)"
  | Recurse npage_t

text \<open>
  Modelled from the spec: the union \<open>fields\<close> of a cell is declared in btree.h, which is
  not among the sources; its members are those that btree.c names, in the order of the
  cell formats of section 3 of the specification for a table leaf cell (\<open>data_size\<close>,
  then the data) and with \<open>keyPk\<close> before \<open>child_page\<close> in an index internal cell. Each
  struct of the union then starts with a 32-bit member, \<open>child_page\<close> of a table internal
  cell, \<open>data_size\<close> of a table leaf cell and \<open>keyPk\<close> of the two index cells, and these
  share their storage. Line 629 of \<open>chidb_Btree_find\<close> reads
  \<open>cell.fields.tableInternal.child_page\<close> whatever the type of the node is: it gets the
  first member of the struct that \<open>chidb_Btree_getCell\<close> has filled.
\<close>

fun first_member :: "fields \<Rightarrow> uint32_t" where
  "first_member (tableInternal child_page) = child_page"
| "first_member (tableLeaf data_size src) = data_size"
| "first_member (indexInternal keyPk child_page) = keyPk"
| "first_member (indexLeaf keyPk) = keyPk"

text \<open>
  The \<open>for\<close> loop of \<open>chidb_Btree_find\<close> from cell \<open>i\<close> on, with the code after the loop.
  A status other than \<open>CHIDB_OK\<close> from \<open>chidb_Btree_getCell\<close> is returned as
  \<open>CHIDB_ECELLNO\<close>. The payload is copied out of the page with the size cut to sixteen
  bits, as \<open>*size\<close> is a \<open>uint16_t\<close>.
\<close>

function find_loop :: "varint \<Rightarrow> BTree \<Rightarrow> BTreeNode \<Rightarrow> chidb_key_t \<Rightarrow> int \<Rightarrow> find_step" where
  "find_loop vc bt btn k i =
     (if i < uint (n_cells btn) then
        (case chidb_Btree_getCell vc btn i of
           Inl e \<Rightarrow> Return (Inl (if is_status e then CHIDB_ECELLNO else e))
         | Inr cell \<Rightarrow>
             if key cell = k \<and> type btn = PGTYPE_TABLE_LEAF then
               (case cfields cell of
                  tableLeaf data_size src \<Rightarrow>
                    Return (bnd (deref (data (page btn)) src (unat (ucast data_size :: uint16_t))) (\<lambda>copy.
                            bnd (chidb_Btree_freeMemNode bt btn) (\<lambda>u.
                              Inr (copy, ucast data_size))))
                | _ \<Rightarrow> Return (Inl UNION_MEMBER))
             else if k \<le> key cell then
               (case chidb_Btree_freeMemNode bt btn of
                  Inl st \<Rightarrow> Return (Inl st)
                | Inr u \<Rightarrow>
                    if type btn = PGTYPE_TABLE_LEAF then Return (Inl CHIDB_ENOTFOUND)
                    else Recurse (first_member (cfields cell)))
             else find_loop vc bt btn k (i + 1))
      else if type btn = PGTYPE_TABLE_LEAF then Return (Inl CHIDB_ENOTFOUND)
      else
        (case chidb_Btree_freeMemNode bt btn of
           Inl st \<Rightarrow> Return (Inl st)
         | Inr u \<Rightarrow> Recurse (right_page btn)))"
  by pat_completeness auto
termination
  by (relation "measure (\<lambda>(vc, bt, btn, k, i). nat (uint (n_cells btn) - i))") auto

text \<open>
  \<open>chidb_Btree_find\<close>. The recursion follows page numbers read from the file and need not
  end, so it takes fuel: \<open>None\<close> is a descent deeper than the fuel.
\<close>

fun chidb_Btree_find ::
  "nat \<Rightarrow> varint \<Rightarrow> BTree \<Rightarrow> npage_t \<Rightarrow> chidb_key_t \<Rightarrow> (error + (uint8_t list \<times> uint16_t)) option" where
  "chidb_Btree_find 0 vc bt nroot k = None"
| "chidb_Btree_find (Suc fuel) vc bt nroot k =
     (case chidb_Btree_getNodeByPage bt nroot of
        Inl st \<Rightarrow> Some (Inl st)
      | Inr btn \<Rightarrow>
          (case find_loop vc bt btn k 0 of
             Return r \<Rightarrow> Some r
           | Recurse n \<Rightarrow> chidb_Btree_find fuel vc bt n k))"

section \<open>Insert\<close>

text \<open>
  \<open>notEnoughSpace\<close>: \<open>need\<close> is the free space of the node and \<open>have\<close> the size of the cell,
  chosen by the type of the cell; the result is \<open>1\<close> (here \<open>True\<close>) when \<open>need >= have\<close>. The
  sum of the table leaf branch is unsigned arithmetic, stored in an \<open>int\<close>.
\<close>

definition notEnoughSpace :: "BTreeNode \<Rightarrow> BTreeCell \<Rightarrow> error + bool" where
  "notEnoughSpace btn btc =
     (let need = uint (cells_offset btn) - uint (free_offset btn) in
      bnd (if ctype btc = PGTYPE_TABLE_LEAF then
             (case cfields btc of
                tableLeaf data_size src \<Rightarrow> Inr (sint (8 + data_size))
              | _ \<Rightarrow> Inl UNION_MEMBER)
           else if ctype btc = PGTYPE_TABLE_INTERNAL then Inr TABLEINTCELL_SIZE
           else if ctype btc = PGTYPE_INDEX_LEAF then Inr INDEXLEAFCELL_SIZE
           else if ctype btc = PGTYPE_INDEX_INTERNAL then Inr INDEXINTCELL_SIZE
           else Inr 0) (\<lambda>have.
        Inr (need \<ge> have)))"

text \<open>The two functions that the source leaves empty: they return \<open>CHIDB_OK\<close>.\<close>

definition chidb_Btree_insertNonFull :: "BTree \<Rightarrow> npage_t \<Rightarrow> BTreeCell \<Rightarrow> (error + unit) \<times> BTree" where
  "chidb_Btree_insertNonFull bt n btc = (Inr (), bt)"

definition chidb_Btree_split :: "BTree \<Rightarrow> npage_t \<Rightarrow> npage_t \<Rightarrow> int \<Rightarrow> (error + unit) \<times> BTree" where
  "chidb_Btree_split bt npage_parent npage_child parent_ncell = (Inr (), bt)"

text \<open>
  A cell that \<open>chidb_Btree_getCell\<close> has read from the node \<open>btn\<close>, as a call that works
  on another page buffer sees it: the payload pointer into the page of \<open>btn\<close> is a pointer
  into memory outside the buffer of that call.
\<close>

definition detach :: "BTreeNode \<Rightarrow> BTreeCell \<Rightarrow> BTreeCell" where
  "detach btn cell =
     (case cfields cell of
        tableLeaf data_size (InPage p) \<Rightarrow>
          cell\<lparr> cfields := tableLeaf data_size (InBuffer (data (page btn)) p) \<rparr>
      | _ \<Rightarrow> cell)"

text \<open>
  The loop of \<open>chidb_Btree_insert\<close> that copies the cells of the root into the new node.
  The root and the new node have page buffers of their own, so the cell read from the
  root points outside the buffer that \<open>chidb_Btree_insertCell\<close> writes.
\<close>

function copy_cells :: "varint \<Rightarrow> BTreeNode \<Rightarrow> BTreeNode \<Rightarrow> int \<Rightarrow> error + BTreeNode" where
  "copy_cells vc rbtn cbtn i =
     (if i < uint (n_cells rbtn) then
        (case chidb_Btree_getCell vc rbtn i of
           Inl st \<Rightarrow> Inl st
         | Inr tcell \<Rightarrow>
             (case chidb_Btree_insertCell vc cbtn i (detach rbtn tcell) of
                Inl st \<Rightarrow> Inl st
              | Inr cbtn' \<Rightarrow> copy_cells vc rbtn cbtn' (i + 1)))
      else Inr cbtn)"
  by pat_completeness auto
termination
  by (relation "measure (\<lambda>(vc, rbtn, cbtn, i). nat (uint (n_cells rbtn) - i))") auto

text \<open>
  Sequencing of two steps that use the pager: the second runs on the handle that the
  first leaves, unless the first fails.
\<close>

definition seq :: "(error + 'a) \<times> BTree \<Rightarrow> ('a \<Rightarrow> BTree \<Rightarrow> (error + 'b) \<times> BTree) \<Rightarrow> (error + 'b) \<times> BTree" where
  "seq r k = (case r of (Inl e, bt) \<Rightarrow> (Inl e, bt) | (Inr x, bt) \<Rightarrow> k x bt)"

text \<open>
  \<open>chidb_Btree_insert\<close>. When \<open>notEnoughSpace\<close> is false the call goes to
  \<open>chidb_Btree_insertNonFull\<close>; otherwise the root is copied into a new node and
  initialised again as an internal node, \<open>chidb_Btree_split\<close> is called, and the end of
  the function is reached without a return statement.
\<close>

definition chidb_Btree_insert :: "varint \<Rightarrow> BTree \<Rightarrow> npage_t \<Rightarrow> BTreeCell \<Rightarrow> (error + unit) \<times> BTree" where
  "chidb_Btree_insert vc bt nroot btc =
     seq (chidb_Btree_getNodeByPage bt nroot, bt) (\<lambda>rbtn bt.
     seq (notEnoughSpace rbtn btc, bt) (\<lambda>room bt.
       if \<not> room then chidb_Btree_insertNonFull bt nroot btc
       else
         seq (chidb_Btree_newNode bt (type rbtn)) (\<lambda>npage_cbtn bt.
         seq (chidb_Btree_getNodeByPage bt npage_cbtn, bt) (\<lambda>cbtn bt.
         seq (copy_cells vc rbtn cbtn 0, bt) (\<lambda>cbtn bt.
         let cbtn = (if type rbtn = PGTYPE_INDEX_INTERNAL \<or> type rbtn = PGTYPE_TABLE_INTERNAL
                     then cbtn\<lparr> right_page := right_page rbtn \<rparr> else cbtn) in
         seq (chidb_Btree_writeNode bt cbtn) (\<lambda>u bt.
         seq (chidb_Btree_freeMemNode bt cbtn, bt) (\<lambda>u bt.
         let rbtn_type = type rbtn in
         seq (chidb_Btree_writeNode bt rbtn) (\<lambda>u bt.
         seq (chidb_Btree_freeMemNode bt rbtn, bt) (\<lambda>u bt.
         seq (if rbtn_type = PGTYPE_INDEX_LEAF \<or> rbtn_type = PGTYPE_INDEX_INTERNAL
                then chidb_Btree_initEmptyNode bt nroot PGTYPE_INDEX_INTERNAL
              else if rbtn_type = PGTYPE_TABLE_LEAF \<or> rbtn_type = PGTYPE_TABLE_INTERNAL
                then chidb_Btree_initEmptyNode bt nroot PGTYPE_TABLE_INTERNAL
              else (Inl EXIT_1, bt)) (\<lambda>u bt.
         seq (chidb_Btree_getNodeByPage bt nroot, bt) (\<lambda>rbtn bt.
         let rbtn = rbtn\<lparr> right_page := npage_cbtn \<rparr> in
         seq (chidb_Btree_writeNode bt rbtn) (\<lambda>u bt.
         seq (chidb_Btree_freeMemNode bt rbtn, bt) (\<lambda>u bt.
         seq (chidb_Btree_split bt nroot npage_cbtn 0) (\<lambda>u bt.
           (Inl NO_RETURN_VALUE, bt)))))))))))))))"

definition chidb_Btree_insertInTable ::
  "varint \<Rightarrow> BTree \<Rightarrow> npage_t \<Rightarrow> chidb_key_t \<Rightarrow> uint8_t list \<Rightarrow> uint16_t \<Rightarrow> (error + unit) \<times> BTree" where
  "chidb_Btree_insertInTable vc bt nroot k buf sz =
     chidb_Btree_insert vc bt nroot
       \<lparr> ctype = PGTYPE_TABLE_LEAF, key = k, cfields = tableLeaf (ucast sz) (InBuffer buf 0) \<rparr>"

definition chidb_Btree_insertInIndex ::
  "varint \<Rightarrow> BTree \<Rightarrow> npage_t \<Rightarrow> chidb_key_t \<Rightarrow> chidb_key_t \<Rightarrow> (error + unit) \<times> BTree" where
  "chidb_Btree_insertInIndex vc bt nroot keyIdx keyPk =
     chidb_Btree_insert vc bt nroot
       \<lparr> ctype = PGTYPE_INDEX_LEAF, key = keyIdx, cfields = indexLeaf keyPk \<rparr>"

section \<open>Example states\<close>

text \<open>
  The file that \<open>chidb_Btree_open\<close> creates for a name that stands for no file, and the
  root node that \<open>chidb_Btree_getNodeByPage\<close> loads from its page 1.
\<close>

definition fresh_page1 :: "uint8_t list" where
  "fresh_page1 =
     [0x53, 0x51, 0x4C, 0x69, 0x74, 0x65, 0x20, 0x66, 0x6F, 0x72, 0x6D, 0x61, 0x74, 0x20, 0x33, 0x00,
      0x04, 0x00, 0x01, 0x01, 0x00, 0x40, 0x20, 0x20, 0x00, 0x00, 0x00, 0x00, 0x00, 0x00, 0x00, 0x00,
      0x00, 0x00, 0x00, 0x00, 0x00, 0x00, 0x00, 0x00, 0x00, 0x00, 0x00, 0x00, 0x00, 0x00, 0x00, 0x01,
      0x00, 0x00, 0x4E, 0x20, 0x00, 0x00, 0x00, 0x00, 0x00, 0x00, 0x00, 0x01, 0x00, 0x00, 0x00, 0x00,
      0x00, 0x00, 0x00, 0x00, 0x00, 0x00, 0x00, 0x00, 0x00, 0x00, 0x00, 0x00, 0x00, 0x00, 0x00, 0x00,
      0x00, 0x00, 0x00, 0x00, 0x00, 0x00, 0x00, 0x00, 0x00, 0x00, 0x00, 0x00, 0x00, 0x00, 0x00, 0x00,
      0x00, 0x00, 0x00, 0x00,
      0x0D, 0x00, 0x6C, 0x00, 0x00, 0x04, 0x00, 0x00]
     @ replicate 916 0"

definition fresh :: BTree where
  "fresh = \<lparr> pager = \<lparr> f = fresh_page1, page_size = 1024, n_pages = 1, io_failing = False \<rparr> \<rparr>"

definition fresh_root :: BTreeNode where
  "fresh_root =
     \<lparr> page = \<lparr> npage = 1, data = fresh_page1 \<rparr>,
       type = 0x0D, free_offset = 108, n_cells = 0, cells_offset = 1024, right_page = 0,
       celloffset_array = 108 \<rparr>"

text \<open>An index leaf node on a page of 64 bytes with one cell, of key 7 and primary key 9.\<close>

definition index_leaf_64 :: BTreeNode where
  "index_leaf_64 =
     \<lparr> page = \<lparr> npage = 2,
                data = [0x0A, 0x00, 0x0A, 0x00, 0x01, 0x00, 0x34, 0x00, 0x00, 0x34]
                       @ replicate 42 0 @ [0x0B, 0x03, 0x04, 0x04, 0, 0, 0, 7, 0, 0, 0, 9] \<rparr>,
       type = PGTYPE_INDEX_LEAF, free_offset = 10, n_cells = 1, cells_offset = 52,
       right_page = 0, celloffset_array = 8 \<rparr>"

text \<open>The cell that \<open>chidb_Btree_insertInTable\<close> makes for key 42 and four bytes of data.\<close>

definition cell42 :: BTreeCell where
  "cell42 = \<lparr> ctype = PGTYPE_TABLE_LEAF, key = 42,
              cfields = tableLeaf 4 (InBuffer [0xDE, 0xAD, 0xBE, 0xEF] 0) \<rparr>"

text \<open>
  An empty table leaf node on page 2 of a file with pages of 512 bytes, and a table leaf
  cell of key 1 with 496 bytes of data: the cell takes 504 bytes, which is the free space
  of the node. \<open>tight_leaf_after\<close> is the node after the cell is inserted.
\<close>

definition empty_leaf_512 :: BTreeNode where
  "empty_leaf_512 =
     \<lparr> page = \<lparr> npage = 2,
                data = [0x0D, 0x00, 0x08, 0x00, 0x00, 0x02, 0x00, 0x00] @ replicate 504 0 \<rparr>,
       type = PGTYPE_TABLE_LEAF, free_offset = 8, n_cells = 0, cells_offset = 512,
       right_page = 0, celloffset_array = 8 \<rparr>"

definition cell496 :: BTreeCell where
  "cell496 = \<lparr> ctype = PGTYPE_TABLE_LEAF, key = 1,
               cfields = tableLeaf 496 (InBuffer (replicate 496 0xAA) 0) \<rparr>"

definition tight_leaf_after :: BTreeNode where
  "tight_leaf_after =
     \<lparr> page = \<lparr> npage = 2,
                data = [0x0D, 0x00, 0x08, 0x00, 0x00, 0x02, 0x00, 0x00]
                       @ [0x00, 0x08, 0x83, 0x70] @ [0x80, 0x80, 0x80, 0x01]
                       @ replicate 496 0xAA \<rparr>,
       type = PGTYPE_TABLE_LEAF, free_offset = 10, n_cells = 1, cells_offset = 8,
       right_page = 0, celloffset_array = 8 \<rparr>"

text \<open>
  The file after \<open>chidb_Btree_insertInTable\<close> of key 42 into the new database: page 1
  is an internal node without cells whose right page is 2, page 2 an empty leaf.
\<close>

definition file_header :: "uint8_t list" where
  "file_header = take 100 fresh_page1"

definition split_empty :: BTree where
  "split_empty =
     \<lparr> pager =
         \<lparr> f = file_header
                @ [0x05, 0x00, 0x70, 0x00, 0x00, 0x04, 0x00, 0x00, 0x00, 0x00, 0x00, 0x02]
                @ replicate 912 0
                @ [0x0D, 0x00, 0x08, 0x00, 0x00, 0x04, 0x00, 0x00] @ replicate 1016 0,
           page_size = 1024, n_pages = 2, io_failing = False \<rparr> \<rparr>"

text \<open>
  The new database with key 42 in its root: the root after \<open>chidb_Btree_insertCell\<close> of
  \<open>cell42\<close> at position 0, and the file after \<open>chidb_Btree_writeNode\<close> of that node.
\<close>

definition stored42 :: "uint8_t list" where
  "stored42 = [0x80, 0x80, 0x80, 0x04, 0x80, 0x80, 0x80, 0x2A, 0xDE, 0xAD, 0xBE, 0xEF]"

definition root42 :: BTreeNode where
  "root42 =
     \<lparr> page = \<lparr> npage = 1,
                data = file_header @ [0x0D, 0x00, 0x6C, 0x00, 0x00, 0x04, 0x00, 0x00]
                       @ [0x03, 0xF4] @ replicate 902 0 @ stored42 \<rparr>,
       type = 0x0D, free_offset = 110, n_cells = 1, cells_offset = 1012, right_page = 0,
       celloffset_array = 108 \<rparr>"

definition db42 :: BTree where
  "db42 =
     \<lparr> pager =
         \<lparr> f = file_header @ [0x0D, 0x00, 0x6E, 0x00, 0x01, 0x03, 0xF4, 0x00]
                @ [0x03, 0xF4] @ replicate 902 0 @ stored42,
           page_size = 1024, n_pages = 1, io_failing = False \<rparr> \<rparr>"

text \<open>The file after \<open>chidb_Btree_insertInTable\<close> of key 42 into \<open>db42\<close>.\<close>

definition db42_again :: BTree where
  "db42_again =
     \<lparr> pager =
         \<lparr> f = file_header
                @ [0x05, 0x00, 0x70, 0x00, 0x00, 0x04, 0x00, 0x00, 0x00, 0x00, 0x00, 0x02]
                @ replicate 900 0 @ stored42
                @ [0x0D, 0x00, 0x0A, 0x00, 0x01, 0x03, 0xF4, 0x00] @ [0x03, 0xF4]
                @ replicate 1002 0 @ stored42,
           page_size = 1024, n_pages = 2, io_failing = False \<rparr> \<rparr>"

text \<open>The new database on a device that rejects writes.\<close>

definition fresh_failing :: BTree where
  "fresh_failing = fresh\<lparr> pager := (pager fresh)\<lparr> io_failing := True \<rparr> \<rparr>"

text \<open>
  An empty table leaf node on a page of 64 bytes whose bytes 56 to 59 are
  \<open>11 22 33 44\<close>, and two cells of key 42 whose four bytes of data are in that page: at
  offset 56, where the cell itself is laid out, and at offset 40, below it.
  \<open>leaf_64_aliased\<close> and \<open>leaf_64_apart\<close> are the node after the one and the other cell is
  inserted.
\<close>

definition leaf_64 :: BTreeNode where
  "leaf_64 =
     \<lparr> page = \<lparr> npage = 2,
                data = [0x0D, 0x00, 0x08, 0x00, 0x00, 0x00, 0x40, 0x00] @ replicate 32 0
                       @ [0xA1, 0xA2, 0xA3, 0xA4] @ replicate 12 0
                       @ [0x11, 0x22, 0x33, 0x44] @ replicate 4 0 \<rparr>,
       type = PGTYPE_TABLE_LEAF, free_offset = 8, n_cells = 0, cells_offset = 64,
       right_page = 0, celloffset_array = 8 \<rparr>"

definition cell_at_56 :: BTreeCell where
  "cell_at_56 = \<lparr> ctype = PGTYPE_TABLE_LEAF, key = 42, cfields = tableLeaf 4 (InPage 56) \<rparr>"

definition cell_at_40 :: BTreeCell where
  "cell_at_40 = \<lparr> ctype = PGTYPE_TABLE_LEAF, key = 42, cfields = tableLeaf 4 (InPage 40) \<rparr>"

definition leaf_64_aliased :: BTreeNode where
  "leaf_64_aliased =
     \<lparr> page = \<lparr> npage = 2,
                data = [0x0D, 0x00, 0x08, 0x00, 0x00, 0x00, 0x40, 0x00] @ [0x00, 0x34]
                       @ replicate 30 0 @ [0xA1, 0xA2, 0xA3, 0xA4] @ replicate 8 0
                       @ [0x80, 0x80, 0x80, 0x04, 0x80, 0x80, 0x80, 0x2A, 0x80, 0x80, 0x80, 0x2A] \<rparr>,
       type = PGTYPE_TABLE_LEAF, free_offset = 10, n_cells = 1, cells_offset = 52,
       right_page = 0, celloffset_array = 8 \<rparr>"

definition leaf_64_apart :: BTreeNode where
  "leaf_64_apart =
     \<lparr> page = \<lparr> npage = 2,
                data = [0x0D, 0x00, 0x08, 0x00, 0x00, 0x00, 0x40, 0x00] @ [0x00, 0x34]
                       @ replicate 30 0 @ [0xA1, 0xA2, 0xA3, 0xA4] @ replicate 8 0
                       @ [0x80, 0x80, 0x80, 0x04, 0x80, 0x80, 0x80, 0x2A, 0xA1, 0xA2, 0xA3, 0xA4] \<rparr>,
       type = PGTYPE_TABLE_LEAF, free_offset = 10, n_cells = 1, cells_offset = 52,
       right_page = 0, celloffset_array = 8 \<rparr>"

section \<open>Sizes and well-formed nodes\<close>

text \<open>
  The serialized length of a cell, by its variant (section 3 of the specification), and
  the page type that a variant belongs to.
\<close>

fun cell_size :: "fields \<Rightarrow> int" where
  "cell_size (tableLeaf data_size src) = TABLELEAFCELL_SIZE_WITHOUTDATA + uint data_size"
| "cell_size (tableInternal child_page) = TABLEINTCELL_SIZE"
| "cell_size (indexInternal keyPk child_page) = INDEXINTCELL_SIZE"
| "cell_size (indexLeaf keyPk) = INDEXLEAFCELL_SIZE"

fun fields_type :: "fields \<Rightarrow> uint8_t" where
  "fields_type (tableLeaf data_size src) = PGTYPE_TABLE_LEAF"
| "fields_type (tableInternal child_page) = PGTYPE_TABLE_INTERNAL"
| "fields_type (indexInternal keyPk child_page) = PGTYPE_INDEX_INTERNAL"
| "fields_type (indexLeaf keyPk) = PGTYPE_INDEX_LEAF"

text \<open>
  The layout invariants of a node in its page: the offset array starts in the page,
  \<open>free_offset\<close> is the first byte after its \<open>n_cells\<close> entries, and the cell area starts
  at \<open>cells_offset\<close> inside the page.
\<close>

definition node_layout :: "BTreeNode \<Rightarrow> bool" where
  "node_layout btn \<longleftrightarrow>
     0 \<le> celloffset_array btn \<and>
     uint (free_offset btn) = celloffset_array btn + 2 * uint (n_cells btn) \<and>
     uint (cells_offset btn) \<le> int (length (data (page btn)))"

text \<open>
  The bytes that the payload pointer of a table leaf cell points to, when the page buffer
  holds the bytes \<open>m\<close>.
\<close>

fun payload :: "uint8_t list \<Rightarrow> fields \<Rightarrow> error + uint8_t list" where
  "payload m (tableLeaf data_size src) = deref m src (unat data_size)"
| "payload m other = Inr []"

text \<open>
  Where the payload of a cell lies, for a cell that is to be inserted into the node
  \<open>btn\<close>. The cell will occupy the bytes from \<open>cells_offset\<close> minus its size up to
  \<open>cells_offset\<close>, its payload the last \<open>data_size\<close> of them. \<open>source_clear\<close>: a payload in
  the page of \<open>btn\<close> does not overlap the place that it is copied to. \<open>source_apart\<close>: a
  payload in the page of \<open>btn\<close> does not overlap the place of the cell at all. A payload
  outside the page is both.
\<close>

fun source_clear :: "BTreeNode \<Rightarrow> fields \<Rightarrow> bool" where
  "source_clear btn (tableLeaf data_size (InPage p)) =
     (p + uint data_size \<le> uint (cells_offset btn) - uint data_size \<or>
      uint (cells_offset btn) \<le> p)"
| "source_clear btn other = True"

fun source_apart :: "BTreeNode \<Rightarrow> fields \<Rightarrow> bool" where
  "source_apart btn (tableLeaf data_size (InPage p)) =
     (p + uint data_size \<le> uint (cells_offset btn) - uint data_size - 8 \<or>
      uint (cells_offset btn) \<le> p)"
| "source_apart btn other = True"

text \<open>
  What the cell formats need of the varint codec, for a value \<open>v\<close>: the encoding fits the
  four bytes that a cell reserves for it, and decoding those four bytes gives \<open>v\<close> back
  whatever the bytes after the encoding are. \<open>varints\<close> are the values that a cell
  stores as varints.
\<close>

definition varint_fits :: "varint \<Rightarrow> uint32_t \<Rightarrow> bool" where
  "varint_fits vc v \<longleftrightarrow> length (putVarint32 vc v) \<le> 4"

definition varint_roundtrip :: "varint \<Rightarrow> uint32_t \<Rightarrow> bool" where
  "varint_roundtrip vc v \<longleftrightarrow>
     (\<forall>rest. length rest = 4 - length (putVarint32 vc v) \<longrightarrow>
        getVarint32 vc (putVarint32 vc v @ rest) = v)"

definition varints :: "BTreeCell \<Rightarrow> uint32_t list" where
  "varints cell =
     (case cfields cell of
        tableLeaf data_size src \<Rightarrow> [data_size, key cell]
      | tableInternal child_page \<Rightarrow> [key cell]
      | _ \<Rightarrow> [])"

text \<open>
  A cell with the payload pointer of a table leaf cell replaced: the cell that
  \<open>chidb_Btree_getCell\<close> gives points into the page.
\<close>

definition repoint :: "BTreeCell \<Rightarrow> pointer \<Rightarrow> BTreeCell" where
  "repoint cell p =
     (case cfields cell of
        tableLeaf data_size src \<Rightarrow> cell\<lparr> cfields := tableLeaf data_size p \<rparr>
      | _ \<Rightarrow> cell)"

text \<open>
  Two buffers that hold the same bytes below, or from, an offset: every read that stays on
  that side gives the same result in both.
\<close>

definition same_below :: "uint8_t list \<Rightarrow> uint8_t list \<Rightarrow> int \<Rightarrow> bool" where
  "same_below m' m lim \<longleftrightarrow>
     length m' = length m \<and> (\<forall>p n. p + int n \<le> lim \<longrightarrow> rd m' p n = rd m p n)"

definition same_from :: "uint8_t list \<Rightarrow> uint8_t list \<Rightarrow> int \<Rightarrow> bool" where
  "same_from m' m lim \<longleftrightarrow>
     length m' = length m \<and> (\<forall>p n. lim \<le> p \<longrightarrow> rd m' p n = rd m p n)"

section \<open>Basic facts about results, memory and byte order\<close>

lemma bnd_Inr [simp]: "bnd (Inr x) k = k x"
  by (simp add: bnd_def)

lemma bnd_Inl [simp]: "bnd (Inl e) k = Inl e"
  by (simp add: bnd_def)

lemma bnd_eq_Inr: "bnd r k = Inr y \<longleftrightarrow> (\<exists>x. r = Inr x \<and> k x = Inr y)"
  by (cases r) simp_all

lemma bnd_eq_Inl: "bnd r k = Inl e \<longleftrightarrow> r = Inl e \<or> (\<exists>x. r = Inr x \<and> k x = Inl e)"
  by (cases r) simp_all

lemma dec16_enc16: "dec16 (enc16 v) = v"
  unfolding dec16_def enc16_def
  by (rule bit_word_eqI) (auto simp add: bit_simps)

lemma dec32_enc32: "dec32 (enc32 v) = v"
  unfolding dec32_def enc32_def
  apply (rule bit_word_eqI)
  subgoal for n
    by (cases "n < 8"; cases "n < 16"; cases "n < 24") (auto simp add: bit_simps)
  done

lemma length_enc16 [simp]: "length (enc16 v) = 2"
  by (simp add: enc16_def)

lemma length_enc32 [simp]: "length (enc32 v) = 4"
  by (simp add: enc32_def)

lemma wr_Inr:
  "wr m off bs = Inr m' \<Longrightarrow>
   0 \<le> off \<and> off + int (length bs) \<le> int (length m) \<and> length m' = length m"
  by (auto simp add: wr_def split: if_splits)

lemma wr_ok:
  "0 \<le> off \<Longrightarrow> off + int (length bs) \<le> int (length m) \<Longrightarrow> \<exists>m'. wr m off bs = Inr m'"
  by (auto simp add: wr_def)

lemma rd_ok:
  "0 \<le> off \<Longrightarrow> off + int n \<le> int (length m) \<Longrightarrow> \<exists>bs. rd m off n = Inr bs"
  by (auto simp add: rd_def)

lemma rd_Inl: "rd m off n = Inl e \<Longrightarrow> e = OUT_OF_BOUNDS"
  by (auto simp add: rd_def split: if_splits)

lemma wr_Inl: "wr m off bs = Inl e \<Longrightarrow> e = OUT_OF_BOUNDS"
  by (auto simp add: wr_def split: if_splits)

lemma rd_length: "rd m off n = Inr bs \<Longrightarrow> length bs = n"
  by (auto simp add: rd_def split: if_splits)

lemma rd_wr_same: "wr m off bs = Inr m' \<Longrightarrow> rd m' off (length bs) = Inr bs"
  by (auto simp add: wr_def rd_def split: if_splits)

lemma rd_wr_other:
  assumes "wr m off bs = Inr m'" and "o2 + int n \<le> off \<or> off + int (length bs) \<le> o2"
  shows "rd m' o2 n = rd m o2 n"
proof -
  from assms(1) have b: "0 \<le> off" "nat off + length bs \<le> length m"
    and m': "m' = take (nat off) m @ bs @ drop (nat off + length bs) m"
    by (auto simp add: wr_def split: if_splits)
  have len: "length m' = length m" using b by (simp add: m')
  show ?thesis
  proof (cases "0 \<le> o2 \<and> nat o2 + n \<le> length m")
    case False
    then show ?thesis by (auto simp add: rd_def len)
  next
    case True
    have "take n (drop (nat o2) m') = take n (drop (nat o2) m)"
    proof (rule nth_equalityI)
      show "length (take n (drop (nat o2) m')) = length (take n (drop (nat o2) m))"
        by (simp add: len)
    next
      fix i assume "i < length (take n (drop (nat o2) m'))"
      then have i: "i < n" "nat o2 + i < length m" using True by (auto simp add: len)
      from assms(2) True i b have "nat o2 + i < nat off \<or> nat off + length bs \<le> nat o2 + i"
        by linarith
      then have "m' ! (nat o2 + i) = m ! (nat o2 + i)"
        using b i by (auto simp add: m' nth_append)
      then show "take n (drop (nat o2) m') ! i = take n (drop (nat o2) m) ! i"
        using i by (simp add: len)
    qed
    then show ?thesis using True by (simp add: rd_def len)
  qed
qed

lemma rd_wr_inside:
  assumes "wr m off bs = Inr m'" and "off \<le> o2" and "o2 + int n \<le> off + int (length bs)"
  shows "rd m' o2 n = Inr (take n (drop (nat (o2 - off)) bs))"
proof -
  from assms(1) have b: "0 \<le> off" "nat off + length bs \<le> length m"
    and m': "m' = take (nat off) m @ bs @ drop (nat off + length bs) m"
    by (auto simp add: wr_def split: if_splits)
  have len: "length m' = length m" using b by (simp add: m')
  have o2: "nat o2 = nat off + nat (o2 - off)" using assms(2) b by linarith
  have inb: "0 \<le> o2" "nat o2 + n \<le> length m" using assms b by linarith+
  have "drop (nat o2) m' = drop (nat (o2 - off)) bs @ drop (nat off + length bs) m"
    using b assms by (simp add: m' o2)
  moreover have "n \<le> length (drop (nat (o2 - off)) bs)" using assms b by simp
  ultimately have "take n (drop (nat o2) m') = take n (drop (nat (o2 - off)) bs)"
    by simp
  then show ?thesis using inb by (simp add: rd_def len)
qed

lemma rd_sub:
  assumes "rd m off n = Inr bs" and "int k + int j \<le> int n"
  shows "rd m (off + int k) j = Inr (take j (drop k bs))"
  using assms
  by (auto simp add: rd_def nat_add_distrib take_drop ac_simps split: if_splits)

lemma get2byte_wr_other:
  "wr m off bs = Inr m' \<Longrightarrow> o2 + 2 \<le> off \<or> off + int (length bs) \<le> o2 \<Longrightarrow>
   get2byte m' o2 = get2byte m o2"
  using rd_wr_other [of m off bs m' o2 2] by (simp add: get2byte_def)

lemma get4byte_wr_other:
  "wr m off bs = Inr m' \<Longrightarrow> o2 + 4 \<le> off \<or> off + int (length bs) \<le> o2 \<Longrightarrow>
   get4byte m' o2 = get4byte m o2"
  using rd_wr_other [of m off bs m' o2 4] by (simp add: get4byte_def)

lemma get4byte_ok:
  "0 \<le> off \<Longrightarrow> off + 4 \<le> int (length m) \<Longrightarrow> \<exists>v. get4byte m off = Inr v"
  using rd_ok [of off 4 m] by (auto simp add: get4byte_def)

lemma replicate_num: "replicate (numeral k) x = x # replicate (pred_numeral k) x"
  by (simp add: numeral_eq_Suc)

lemmas mem_defs =
  rd_def wr_def get1byte_def get2byte_def get4byte_def put1byte_def put2byte_def put4byte_def
  get_varint_def put_varint_def enc16_def enc32_def dec16_def dec32_def

lemmas pgtype_defs =
  PGTYPE_TABLE_INTERNAL_def PGTYPE_TABLE_LEAF_def PGTYPE_INDEX_INTERNAL_def PGTYPE_INDEX_LEAF_def

lemmas cellsize_defs =
  TABLELEAFCELL_SIZE_WITHOUTDATA_def TABLEINTCELL_SIZE_def INDEXINTCELL_SIZE_def
  INDEXLEAFCELL_SIZE_def

section \<open>Reading a cell\<close>

text \<open>
  When the offset array entry can be read, \<open>chidb_Btree_getCell\<close> returns
  \<open>CHIDB_ECELLNO\<close> exactly for the cell numbers below \<open>0\<close> and above \<open>n_cells\<close>: the
  cell number \<open>n_cells\<close> itself passes the check.
\<close>

lemma getCell_ECELLNO_iff:
  assumes "get2byte (data (page btn)) (celloffset_array btn + ncell * 2) = Inr off"
  shows "chidb_Btree_getCell vc btn ncell = Inl CHIDB_ECELLNO
           \<longleftrightarrow> ncell < 0 \<or> ncell > uint (n_cells btn)"
  using assms
  by (auto simp add: chidb_Btree_getCell_def decode_cell_def bnd_eq_Inl get4byte_def
      get_varint_def dest: rd_Inl)

text \<open>
  C5 (the code differs): the claim is that \<open>getCell(node, i)\<close> fails with \<open>BadCellNo\<close>
  exactly when \<open>i < 0\<close> or \<open>i >= n_cells\<close>. The check of the source is
  \<open>ncell > btn->n_cells\<close>. On the root of a new database, which has no cell, cell
  number 0 is not rejected: the entry after the offset array holds 0, and the bytes at
  the start of the page, the format string of the file header, are decoded as a table
  leaf cell and returned with \<open>CHIDB_OK\<close>.
\<close>

theorem getCell_accepts_n_cells:
  "n_cells fresh_root = 0 \<and>
   chidb_Btree_getCell chidb_varint fresh_root 0 =
     Inr \<lparr> ctype = PGTYPE_TABLE_LEAF, key = 244928614,
           cfields = tableLeaf 175400553 (InPage 8) \<rparr>"
  by (simp add: chidb_Btree_getCell_def decode_cell_def fresh_root_def fresh_page1_def mem_defs
      chidb_varint_def
      pgtype_defs cellsize_defs)

text \<open>
  C10: on an index internal or index leaf node, \<open>chidb_Btree_getCell\<close> reads the child
  page, the key and the primary key from their fixed offsets and never looks at the four
  constant bytes \<open>0B 03 04 04\<close> of the cell. For a cell number \<open>ncell\<close> in range whose
  cell lies in the page, and whose offset array entry does not overlap the constant bytes
  (they are at \<open>c\<close>: four bytes into an index internal cell, at the start of an index
  leaf cell), overwriting the constant bytes with any four bytes \<open>junk\<close> gives a node on
  which \<open>chidb_Btree_getCell\<close> returns \<open>CHIDB_OK\<close> with the same cell as on the
  original node.
\<close>

theorem getCell_ignores_hexg:
  assumes ty: "type btn = PGTYPE_INDEX_INTERNAL \<or> type btn = PGTYPE_INDEX_LEAF"
    and idx: "0 \<le> ncell" "ncell < uint (n_cells btn)"
    and off: "get2byte (data (page btn)) (celloffset_array btn + ncell * 2) = Inr off"
    and c: "c = uint off + (if type btn = PGTYPE_INDEX_INTERNAL then 4 else 0)"
    and inb: "c + 12 \<le> int (length (data (page btn)))"
    and sep: "celloffset_array btn + ncell * 2 + 2 \<le> c \<or> c + 4 \<le> celloffset_array btn + ncell * 2"
    and junk: "length junk = 4"
  shows "\<exists>m' cell. wr (data (page btn)) c junk = Inr m'
           \<and> chidb_Btree_getCell vc (btn\<lparr>page := (page btn)\<lparr>data := m'\<rparr>\<rparr>) ncell = Inr cell
           \<and> chidb_Btree_getCell vc btn ncell = Inr cell"
proof -
  let ?m = "data (page btn)"
  let ?d = "uint off"
  have c0: "0 \<le> c" using c by (auto split: if_splits)
  then obtain m' where m': "wr ?m c junk = Inr m'"
    using wr_ok [of c junk ?m] inb junk by auto
  have e: "get2byte m' (celloffset_array btn + ncell * 2) = Inr off"
    using get2byte_wr_other [OF m', of "celloffset_array btn + ncell * 2"] sep junk off by auto
  from ty show ?thesis
  proof
    assume t: "type btn = PGTYPE_INDEX_INTERNAL"
    then have cd: "c = ?d + 4" using c by simp
    obtain k pk cp where g: "get4byte ?m (?d + 8) = Inr k" "get4byte ?m (?d + 12) = Inr pk"
        "get4byte ?m ?d = Inr cp"
      using get4byte_ok [of "?d + 8" ?m] get4byte_ok [of "?d + 12" ?m] get4byte_ok [of ?d ?m]
        inb cd by auto
    have g': "get4byte m' (?d + 8) = Inr k" "get4byte m' (?d + 12) = Inr pk"
        "get4byte m' ?d = Inr cp"
      using get4byte_wr_other [OF m'] junk cd g by auto
    have ne: "PGTYPE_INDEX_INTERNAL \<noteq> PGTYPE_TABLE_INTERNAL"
        "PGTYPE_INDEX_INTERNAL \<noteq> PGTYPE_TABLE_LEAF"
      by (simp_all add: pgtype_defs)
    show ?thesis
      using m' e off g g' idx t ne by (simp add: chidb_Btree_getCell_def decode_cell_def)
  next
    assume t: "type btn = PGTYPE_INDEX_LEAF"
    have ne: "PGTYPE_INDEX_LEAF \<noteq> PGTYPE_TABLE_INTERNAL" "PGTYPE_INDEX_LEAF \<noteq> PGTYPE_TABLE_LEAF"
        "PGTYPE_INDEX_LEAF \<noteq> PGTYPE_INDEX_INTERNAL"
      by (simp_all add: pgtype_defs)
    then have cd: "c = ?d" using c t by simp
    obtain k pk where g: "get4byte ?m (?d + 4) = Inr k" "get4byte ?m (?d + 8) = Inr pk"
      using get4byte_ok [of "?d + 4" ?m] get4byte_ok [of "?d + 8" ?m] inb cd by auto
    have g': "get4byte m' (?d + 4) = Inr k" "get4byte m' (?d + 8) = Inr pk"
      using get4byte_wr_other [OF m'] junk cd g by auto
    show ?thesis
      using m' e off g g' idx t ne by (simp add: chidb_Btree_getCell_def decode_cell_def)
  qed
qed

theorem getCell_ignores_hexg_witness:
  "\<exists>m' cell. wr (data (page index_leaf_64)) 52 [0xFF, 0xFF, 0xFF, 0xFF] = Inr m'
     \<and> chidb_Btree_getCell chidb_varint
          (index_leaf_64\<lparr>page := (page index_leaf_64)\<lparr>data := m'\<rparr>\<rparr>) 0 = Inr cell
     \<and> chidb_Btree_getCell chidb_varint index_leaf_64 0 = Inr cell"
  by (rule getCell_ignores_hexg [where off = 52]) code_simp+

section \<open>Laying out a cell\<close>


lemma rd_wr_below: "wr m off bs = Inr m' \<Longrightarrow> o2 + int n \<le> off \<Longrightarrow> rd m' o2 n = rd m o2 n"
  by (rule rd_wr_other) auto

lemma rd_wr_above: "wr m off bs = Inr m' \<Longrightarrow> off + int (length bs) \<le> o2 \<Longrightarrow> rd m' o2 n = rd m o2 n"
  by (rule rd_wr_other) auto

lemma rd_wr_prefix:
  assumes "wr m off bs = Inr m'" and "length bs \<le> n" and "off + int n \<le> int (length m)"
  shows "\<exists>rest. length rest = n - length bs \<and> rd m' off n = Inr (bs @ rest)"
proof -
  from assms(1) have b: "0 \<le> off" "nat off + length bs \<le> length m"
    and m': "m' = take (nat off) m @ bs @ drop (nat off + length bs) m"
    by (auto simp add: wr_def split: if_splits)
  have len: "length m' = length m" using b by (simp add: m')
  have "drop (nat off) m' = bs @ drop (nat off + length bs) m"
    using b by (simp add: m')
  then have "take n (drop (nat off) m') = bs @ take (n - length bs) (drop (nat off + length bs) m)"
    using assms(2) by simp
  moreover have "length (take (n - length bs) (drop (nat off + length bs) m)) = n - length bs"
    using assms b by simp
  moreover have "0 \<le> off \<and> nat off + n \<le> length m'" using assms b len by linarith
  ultimately show ?thesis by (auto simp add: rd_def)
qed

lemma get4byte_put4byte: "put4byte m off v = Inr m' \<Longrightarrow> get4byte m' off = Inr v"
  using rd_wr_same [of m off "enc32 v" m'] by (simp add: put4byte_def get4byte_def dec32_enc32)

lemma get2byte_put2byte: "put2byte m off v = Inr m' \<Longrightarrow> get2byte m' off = Inr v"
  using rd_wr_same [of m off "enc16 v" m'] by (simp add: put2byte_def get2byte_def dec16_enc16)

lemma get_varint_put_varint:
  assumes "put_varint vc m off v = Inr m'"
    and "varint_fits vc v" and "varint_roundtrip vc v"
    and "off + 4 \<le> int (length m)"
  shows "get_varint vc m' off = Inr v"
proof -
  obtain rest where "length rest = 4 - length (putVarint32 vc v)"
    "rd m' off 4 = Inr (putVarint32 vc v @ rest)"
    using rd_wr_prefix [of m off "putVarint32 vc v" m' 4] assms
    by (auto simp add: put_varint_def varint_fits_def)
  then show ?thesis using assms(3) by (simp add: get_varint_def varint_roundtrip_def)
qed

lemma same_below_refl: "same_below m m lim"
  by (simp add: same_below_def)

lemma same_below_wr:
  assumes "same_below m1 m lim" and "wr m1 off bs = Inr m2" and "lim \<le> off"
  shows "same_below m2 m lim"
  using assms rd_wr_below [OF assms(2)] wr_Inr [OF assms(2)]
  by (auto simp add: same_below_def)

lemma same_below_mono: "same_below m' m lim \<Longrightarrow> lim' \<le> lim \<Longrightarrow> same_below m' m lim'"
  by (auto simp add: same_below_def)

lemma same_from_refl: "same_from m m lim"
  by (simp add: same_from_def)

lemma same_from_wr:
  assumes "same_from m1 m lim" and "wr m1 off bs = Inr m2" and "off + int (length bs) \<le> lim"
  shows "same_from m2 m lim"
  using assms rd_wr_above [OF assms(2)] wr_Inr [OF assms(2)]
  by (auto simp add: same_from_def)

lemma wr_step:
  assumes "0 \<le> off" and "off + int (length bs) \<le> int (length m)"
  shows "\<exists>m'. wr m off bs = Inr m' \<and> length m' = length m"
  using wr_ok [OF assms] wr_Inr by blast

lemma co_sub_leaf:
  fixes ds :: "32 word" and co :: "16 word"
  assumes "uint ds + 8 \<le> uint co"
  shows "uint (co - ucast (ds + 8)) = uint co - (uint ds + 8)"
proof -
  have c: "uint co < 65536" using uint_lt2p [of co] by simp
  have d: "0 \<le> uint ds" by simp
  have 1: "uint (ds + 8) = uint ds + 8"
    using assms c d by (simp add: uint_word_ariths)
  have 2: "uint (ucast (ds + 8) :: 16 word) = uint ds + 8"
    using assms c d 1 by (simp add: unsigned_ucast_eq take_bit_eq_mod)
  have 3: "0 \<le> uint co - (uint ds + 8)" "uint co - (uint ds + 8) < 65536"
    using assms c d by linarith+
  show ?thesis
    using 3 by (simp add: uint_word_ariths 2)
qed

lemma co_sub_num:
  fixes co :: "16 word"
  shows "8 \<le> uint co \<Longrightarrow> uint (co - 8) = uint co - 8"
   "12 \<le> uint co \<Longrightarrow> uint (co - 12) = uint co - 12"
   "16 \<le> uint co \<Longrightarrow> uint (co - 16) = uint co - 16"
  using uint_lt2p [of co] by (simp_all add: uint_word_ariths)

lemma pgtype_distinct:
  "PGTYPE_TABLE_LEAF \<noteq> PGTYPE_TABLE_INTERNAL" "PGTYPE_INDEX_INTERNAL \<noteq> PGTYPE_TABLE_INTERNAL"
  "PGTYPE_INDEX_LEAF \<noteq> PGTYPE_TABLE_INTERNAL" "PGTYPE_INDEX_INTERNAL \<noteq> PGTYPE_TABLE_LEAF"
  "PGTYPE_INDEX_LEAF \<noteq> PGTYPE_TABLE_LEAF" "PGTYPE_INDEX_LEAF \<noteq> PGTYPE_INDEX_INTERNAL"
  "PGTYPE_TABLE_INTERNAL \<noteq> PGTYPE_TABLE_LEAF" "PGTYPE_TABLE_INTERNAL \<noteq> PGTYPE_INDEX_INTERNAL"
  "PGTYPE_TABLE_INTERNAL \<noteq> PGTYPE_INDEX_LEAF" "PGTYPE_TABLE_LEAF \<noteq> PGTYPE_INDEX_INTERNAL"
  "PGTYPE_TABLE_LEAF \<noteq> PGTYPE_INDEX_LEAF" "PGTYPE_INDEX_INTERNAL \<noteq> PGTYPE_INDEX_LEAF"
  by (simp_all add: pgtype_defs)

text \<open>
  \<open>memcpy\<close> from a source that can be read and does not overlap the destination is a
  write of the bytes read. A write elsewhere leaves what a pointer points to readable,
  and unchanged if it is away from the pointer's bytes.
\<close>

lemma memcpy_wr:
  assumes "deref m src n = Inr copied"
    and "case src of InPage p \<Rightarrow> p + int n \<le> dst \<or> dst + int n \<le> p | InBuffer b p \<Rightarrow> True"
  shows "memcpy m dst src n = wr m dst copied"
  using assms by (cases src) auto

lemma deref_wr_length:
  assumes "wr m off bs = Inr m'" and "deref m src n = Inr bytes"
  shows "\<exists>copied. deref m' src n = Inr copied"
proof (cases src)
  case (InPage p)
  then have "0 \<le> p \<and> p + int n \<le> int (length m)"
    using assms(2) by (auto simp add: rd_def split: if_splits)
  then show ?thesis
    using InPage wr_Inr [OF assms(1)] rd_ok [of p n m'] by simp
next
  case (InBuffer b p)
  then show ?thesis using assms(2) by simp
qed

lemma deref_wr_other:
  assumes "wr m off bs = Inr m'"
    and "case src of InPage p \<Rightarrow> p + int n \<le> off \<or> off + int (length bs) \<le> p
         | InBuffer b p \<Rightarrow> True"
  shows "deref m' src n = deref m src n"
  using assms rd_wr_other [OF assms(1)] by (cases src) auto

text \<open>The table leaf branch of the layout.\<close>

lemma layout_table_leaf:
  assumes t: "type btn = PGTYPE_TABLE_LEAF"
    and f: "cfields cell = tableLeaf ds src"
    and inb: "uint (cells_offset btn) \<le> int (length (data (page btn)))"
    and sz: "8 + uint ds \<le> uint (cells_offset btn)"
    and fits: "varint_fits vc ds" "varint_fits vc (key cell)"
    and pay: "deref (data (page btn)) src (unat ds) = Inr bytes"
    and clear: "source_clear btn (tableLeaf ds src)"
  shows "\<exists>m1 co' copied. layout_cell vc btn cell = Inr (m1, co')
      \<and> uint co' = uint (cells_offset btn) - (8 + uint ds)
      \<and> same_below m1 (data (page btn)) (uint co')
      \<and> rd m1 (uint co' + 8) (unat ds) = Inr copied
      \<and> (source_apart btn (tableLeaf ds src) \<longrightarrow> copied = bytes)
      \<and> (varint_roundtrip vc ds \<and> varint_roundtrip vc (key cell) \<longrightarrow>
           get_varint vc m1 (uint co') = Inr ds \<and> get_varint vc m1 (uint co' + 4) = Inr (key cell))"
proof -
  let ?m = "data (page btn)"
  let ?co = "cells_offset btn"
  define d where "d = uint ?co - uint ds - 8"
  have d0: "0 \<le> d" using sz by (simp add: d_def)
  have l1: "int (length (putVarint32 vc ds)) \<le> 4" and l2: "int (length (putVarint32 vc (key cell))) \<le> 4"
    using fits by (simp_all add: varint_fits_def)
  have dlen: "d + 8 + uint ds \<le> int (length ?m)" using inb by (simp add: d_def)
  have uds: "0 \<le> uint ds" by simp
  have b1: "d + int (length (putVarint32 vc ds)) \<le> int (length ?m)"
    using l1 dlen uds by linarith
  obtain ma where ma: "wr ?m d (putVarint32 vc ds) = Inr ma" and lma: "length ma = length ?m"
    using wr_step [OF d0 b1] by blast
  have b2: "0 \<le> d + 4" "d + 4 + int (length (putVarint32 vc (key cell))) \<le> int (length ma)"
    using l2 dlen uds d0 lma by linarith+
  obtain mb where mb: "wr ma (d + 4) (putVarint32 vc (key cell)) = Inr mb"
    and lmb: "length mb = length ma"
    using wr_step [OF b2] by blast
  obtain ca where ca: "deref ma src (unat ds) = Inr ca"
    using deref_wr_length [OF ma pay] by blast
  obtain copied where cp: "deref mb src (unat ds) = Inr copied"
    using deref_wr_length [OF mb ca] by blast
  have lb: "length copied = unat ds"
    using cp rd_length by (cases src) auto
  have same: "copied = bytes" if ap: "source_apart btn (tableLeaf ds src)"
  proof -
    have s1: "case src of InPage p \<Rightarrow> p + int (unat ds) \<le> d \<or> d + int (length (putVarint32 vc ds)) \<le> p
         | InBuffer b p \<Rightarrow> True"
    proof (cases src)
      case (InPage p)
      then have "p + uint ds \<le> d \<or> uint ?co \<le> p" using ap by (simp add: d_def)
      then have "p + uint ds \<le> d \<or> d + int (length (putVarint32 vc ds)) \<le> p"
        using l1 uds unfolding d_def by linarith
      then show ?thesis using InPage by simp
    qed simp
    have s2: "case src of InPage p \<Rightarrow> p + int (unat ds) \<le> d + 4
           \<or> d + 4 + int (length (putVarint32 vc (key cell))) \<le> p
         | InBuffer b p \<Rightarrow> True"
    proof (cases src)
      case (InPage p)
      then have "p + uint ds \<le> d \<or> uint ?co \<le> p" using ap by (simp add: d_def)
      then have "p + uint ds \<le> d + 4 \<or> d + 4 + int (length (putVarint32 vc (key cell))) \<le> p"
        using l2 uds unfolding d_def by linarith
      then show ?thesis using InPage by simp
    qed simp
    have "deref ma src (unat ds) = deref ?m src (unat ds)"
      by (rule deref_wr_other [OF ma s1])
    moreover have "deref mb src (unat ds) = deref ma src (unat ds)"
      by (rule deref_wr_other [OF mb s2])
    ultimately show ?thesis using cp pay by simp
  qed
  have s3: "case src of InPage p \<Rightarrow> p + int (unat ds) \<le> d + 8 \<or> d + 8 + int (unat ds) \<le> p
       | InBuffer b p \<Rightarrow> True"
  proof (cases src)
    case (InPage p)
    then have "p + uint ds \<le> uint ?co - uint ds \<or> uint ?co \<le> p" using clear by simp
    then have "p + uint ds \<le> d + 8 \<or> d + 8 + uint ds \<le> p"
      unfolding d_def by linarith
    then show ?thesis using InPage by simp
  qed simp
  have cpy: "memcpy mb (d + 8) src (unat ds) = wr mb (d + 8) copied"
    by (rule memcpy_wr [OF cp s3])
  have b3: "0 \<le> d + 8" "d + 8 + int (length copied) \<le> int (length mb)"
    using dlen d0 lma lmb lb by simp_all
  obtain mc where mc: "wr mb (d + 8) copied = Inr mc" and lmc: "length mc = length mb"
    using wr_step [OF b3] by blast
  have co': "uint (?co - ucast (ds + 8)) = d"
    using co_sub_leaf [of ds ?co] sz by (simp add: d_def)
  have lay: "layout_cell vc btn cell = Inr (mc, ?co - ucast (ds + 8))"
    using t f ma mb mc cpy
    by (simp add: layout_cell_def put_varint_def d_def cellsize_defs)
  have sb: "same_below mc ?m d"
    using same_below_wr [OF same_below_wr [OF same_below_wr [OF same_below_refl ma] mb] mc]
    by simp
  have pl: "rd mc (d + 8) (unat ds) = Inr copied"
    using rd_wr_same [OF mc] lb by simp
  have rt: "get_varint vc mc d = Inr ds \<and> get_varint vc mc (d + 4) = Inr (key cell)"
    if r: "varint_roundtrip vc ds" "varint_roundtrip vc (key cell)"
  proof
    have "get_varint vc ma d = Inr ds"
      using get_varint_put_varint [of vc ?m d ds ma] ma fits r dlen uds
      by (simp add: put_varint_def)
    moreover have "rd mb d 4 = rd ma d 4" using rd_wr_below [OF mb, of d 4] by simp
    moreover have "rd mc d 4 = rd mb d 4" using rd_wr_below [OF mc, of d 4] by simp
    ultimately show "get_varint vc mc d = Inr ds" by (simp add: get_varint_def)
    have "get_varint vc mb (d + 4) = Inr (key cell)"
      using get_varint_put_varint [of vc ma "d + 4" "key cell" mb] mb fits r dlen uds lma
      by (simp add: put_varint_def)
    moreover have "rd mc (d + 4) 4 = rd mb (d + 4) 4" using rd_wr_below [OF mc, of "d + 4" 4] by simp
    ultimately show "get_varint vc mc (d + 4) = Inr (key cell)" by (simp add: get_varint_def)
  qed
  show ?thesis
    using lay co' sb pl rt same by (auto simp add: d_def)
qed

lemma layout_table_internal:
  assumes t: "type btn = PGTYPE_TABLE_INTERNAL"
    and f: "cfields cell = tableInternal cp"
    and inb: "uint (cells_offset btn) \<le> int (length (data (page btn)))"
    and sz: "8 \<le> uint (cells_offset btn)"
    and fits: "varint_fits vc (key cell)"
  shows "\<exists>m1 co'. layout_cell vc btn cell = Inr (m1, co')
      \<and> uint co' = uint (cells_offset btn) - 8
      \<and> same_below m1 (data (page btn)) (uint co')
      \<and> get4byte m1 (uint co') = Inr cp
      \<and> (varint_roundtrip vc (key cell) \<longrightarrow> get_varint vc m1 (uint co' + 4) = Inr (key cell))"
proof -
  let ?m = "data (page btn)"
  let ?co = "cells_offset btn"
  define d where "d = uint ?co - 8"
  have d0: "0 \<le> d" using sz by (simp add: d_def)
  have l2: "int (length (putVarint32 vc (key cell))) \<le> 4"
    using fits by (simp add: varint_fits_def)
  have dlen: "d + 8 \<le> int (length ?m)" using inb by (simp add: d_def)
  have b1: "d + int (length (enc32 cp)) \<le> int (length ?m)" using dlen by simp
  obtain ma where ma: "wr ?m d (enc32 cp) = Inr ma" and lma: "length ma = length ?m"
    using wr_step [OF d0 b1] by blast
  have b2: "0 \<le> d + 4" "d + 4 + int (length (putVarint32 vc (key cell))) \<le> int (length ma)"
    using l2 dlen d0 lma by linarith+
  obtain mb where mb: "wr ma (d + 4) (putVarint32 vc (key cell)) = Inr mb"
    and lmb: "length mb = length ma"
    using wr_step [OF b2] by blast
  have co': "uint (?co - 8) = d" using co_sub_num(1) [of ?co] sz by (simp add: d_def)
  have ne: "PGTYPE_TABLE_INTERNAL \<noteq> PGTYPE_TABLE_LEAF" by (simp add: pgtype_defs)
  have lay: "layout_cell vc btn cell = Inr (mb, ?co - 8)"
    using t f ma mb ne
    by (simp add: layout_cell_def put_varint_def put4byte_def d_def cellsize_defs)
  have sb: "same_below mb ?m d"
    using same_below_wr [OF same_below_wr [OF same_below_refl ma] mb] by simp
  have "get4byte ma d = Inr cp" using get4byte_put4byte [of ?m d cp ma] ma by (simp add: put4byte_def)
  moreover have "rd mb d 4 = rd ma d 4" using rd_wr_below [OF mb, of d 4] by simp
  ultimately have g1: "get4byte mb d = Inr cp" by (simp add: get4byte_def)
  have g2: "get_varint vc mb (d + 4) = Inr (key cell)" if "varint_roundtrip vc (key cell)"
    using get_varint_put_varint [of vc ma "d + 4" "key cell" mb] mb fits that dlen lma
    by (simp add: put_varint_def)
  show ?thesis
    using lay co' sb g1 g2 by (auto simp add: d_def)
qed

lemma layout_index_internal:
  assumes t: "type btn = PGTYPE_INDEX_INTERNAL"
    and f: "cfields cell = indexInternal pk cp"
    and inb: "uint (cells_offset btn) \<le> int (length (data (page btn)))"
    and sz: "16 \<le> uint (cells_offset btn)"
  shows "\<exists>m1 co'. layout_cell vc btn cell = Inr (m1, co')
      \<and> uint co' = uint (cells_offset btn) - 16
      \<and> same_below m1 (data (page btn)) (uint co')
      \<and> get4byte m1 (uint co') = Inr cp
      \<and> get4byte m1 (uint co' + 8) = Inr (key cell)
      \<and> get4byte m1 (uint co' + 12) = Inr pk"
proof -
  let ?m = "data (page btn)"
  let ?co = "cells_offset btn"
  define d where "d = uint ?co - 16"
  have d0: "0 \<le> d" using sz by (simp add: d_def)
  have dlen: "d + 16 \<le> int (length ?m)" using inb by (simp add: d_def)
  have b1: "d + int (length (enc32 cp)) \<le> int (length ?m)" using dlen by simp
  obtain ma where ma: "wr ?m d (enc32 cp) = Inr ma" and lma: "length ma = length ?m"
    using wr_step [OF d0 b1] by blast
  have b2: "0 \<le> d + 4" "d + 4 + int (length hexg) \<le> int (length ma)"
    using dlen d0 lma by (simp_all add: hexg_def)
  obtain mb where mb: "wr ma (d + 4) hexg = Inr mb" and lmb: "length mb = length ma"
    using wr_step [OF b2] by blast
  have b3: "0 \<le> d + 8" "d + 8 + int (length (enc32 (key cell))) \<le> int (length mb)"
    using dlen d0 lma lmb by simp_all
  obtain mc where mc: "wr mb (d + 8) (enc32 (key cell)) = Inr mc" and lmc: "length mc = length mb"
    using wr_step [OF b3] by blast
  have b4: "0 \<le> d + 12" "d + 12 + int (length (enc32 pk)) \<le> int (length mc)"
    using dlen d0 lma lmb lmc by simp_all
  obtain md where md: "wr mc (d + 12) (enc32 pk) = Inr md" and lmd: "length md = length mc"
    using wr_step [OF b4] by blast
  have co': "uint (?co - 16) = d" using co_sub_num(3) [of ?co] sz by (simp add: d_def)
  have ne: "PGTYPE_INDEX_INTERNAL \<noteq> PGTYPE_TABLE_LEAF"
    "PGTYPE_INDEX_INTERNAL \<noteq> PGTYPE_TABLE_INTERNAL" by (simp_all add: pgtype_defs)
  have lay: "layout_cell vc btn cell = Inr (md, ?co - 16)"
    using t f ma mb mc md ne
    by (simp add: layout_cell_def put4byte_def d_def cellsize_defs)
  have sb: "same_below md ?m d"
    using same_below_wr [OF same_below_wr [OF same_below_wr [OF same_below_wr
      [OF same_below_refl ma] mb] mc] md] by simp
  have hl: "length hexg = 4" by (simp add: hexg_def)
  have "get4byte ma d = Inr cp" using get4byte_put4byte [of ?m d cp ma] ma by (simp add: put4byte_def)
  moreover have "rd mb d 4 = rd ma d 4" using rd_wr_below [OF mb, of d 4] by simp
  moreover have "rd mc d 4 = rd mb d 4" using rd_wr_below [OF mc, of d 4] by simp
  moreover have "rd md d 4 = rd mc d 4" using rd_wr_below [OF md, of d 4] by simp
  ultimately have g1: "get4byte md d = Inr cp" by (simp add: get4byte_def)
  have "get4byte mc (d + 8) = Inr (key cell)"
    using get4byte_put4byte [of mb "d + 8" "key cell" mc] mc by (simp add: put4byte_def)
  moreover have "rd md (d + 8) 4 = rd mc (d + 8) 4" using rd_wr_below [OF md, of "d + 8" 4] by simp
  ultimately have g2: "get4byte md (d + 8) = Inr (key cell)" by (simp add: get4byte_def)
  have g3: "get4byte md (d + 12) = Inr pk"
    using get4byte_put4byte [of mc "d + 12" pk md] md by (simp add: put4byte_def)
  show ?thesis
    using lay co' sb g1 g2 g3 by (auto simp add: d_def)
qed

lemma layout_index_leaf:
  assumes t: "type btn = PGTYPE_INDEX_LEAF"
    and f: "cfields cell = indexLeaf pk"
    and inb: "uint (cells_offset btn) \<le> int (length (data (page btn)))"
    and sz: "12 \<le> uint (cells_offset btn)"
  shows "\<exists>m1 co'. layout_cell vc btn cell = Inr (m1, co')
      \<and> uint co' = uint (cells_offset btn) - 12
      \<and> same_below m1 (data (page btn)) (uint co')
      \<and> get4byte m1 (uint co' + 4) = Inr (key cell)
      \<and> get4byte m1 (uint co' + 8) = Inr pk"
proof -
  let ?m = "data (page btn)"
  let ?co = "cells_offset btn"
  define d where "d = uint ?co - 12"
  have d0: "0 \<le> d" using sz by (simp add: d_def)
  have dlen: "d + 12 \<le> int (length ?m)" using inb by (simp add: d_def)
  have b1: "d + int (length hexg) \<le> int (length ?m)" using dlen by (simp add: hexg_def)
  obtain ma where ma: "wr ?m d hexg = Inr ma" and lma: "length ma = length ?m"
    using wr_step [OF d0 b1] by blast
  have b2: "0 \<le> d + 4" "d + 4 + int (length (enc32 (key cell))) \<le> int (length ma)"
    using dlen d0 lma by simp_all
  obtain mb where mb: "wr ma (d + 4) (enc32 (key cell)) = Inr mb" and lmb: "length mb = length ma"
    using wr_step [OF b2] by blast
  have b3: "0 \<le> d + 8" "d + 8 + int (length (enc32 pk)) \<le> int (length mb)"
    using dlen d0 lma lmb by simp_all
  obtain mc where mc: "wr mb (d + 8) (enc32 pk) = Inr mc" and lmc: "length mc = length mb"
    using wr_step [OF b3] by blast
  have co': "uint (?co - 12) = d" using co_sub_num(2) [of ?co] sz by (simp add: d_def)
  have ne: "PGTYPE_INDEX_LEAF \<noteq> PGTYPE_TABLE_LEAF"
    "PGTYPE_INDEX_LEAF \<noteq> PGTYPE_TABLE_INTERNAL" "PGTYPE_INDEX_LEAF \<noteq> PGTYPE_INDEX_INTERNAL"
    by (simp_all add: pgtype_defs)
  have lay: "layout_cell vc btn cell = Inr (mc, ?co - 12)"
    using t f ma mb mc ne
    by (simp add: layout_cell_def put4byte_def d_def cellsize_defs)
  have sb: "same_below mc ?m d"
    using same_below_wr [OF same_below_wr [OF same_below_wr [OF same_below_refl ma] mb] mc]
    by simp
  have "get4byte mb (d + 4) = Inr (key cell)"
    using get4byte_put4byte [of ma "d + 4" "key cell" mb] mb by (simp add: put4byte_def)
  moreover have "rd mc (d + 4) 4 = rd mb (d + 4) 4" using rd_wr_below [OF mc, of "d + 4" 4] by simp
  ultimately have g2: "get4byte mc (d + 4) = Inr (key cell)" by (simp add: get4byte_def)
  have g3: "get4byte mc (d + 8) = Inr pk"
    using get4byte_put4byte [of mb "d + 8" pk mc] mc by (simp add: put4byte_def)
  show ?thesis
    using lay co' sb g2 g3 by (auto simp add: d_def)
qed

text \<open>The four branches together.\<close>

lemma layout_cell_ok:
  assumes ty: "fields_type (cfields cell) = type btn"
    and inb: "uint (cells_offset btn) \<le> int (length (data (page btn)))"
    and sz: "cell_size (cfields cell) \<le> uint (cells_offset btn)"
    and fits: "\<forall>v\<in>set (varints cell). varint_fits vc v"
    and pay: "payload (data (page btn)) (cfields cell) = Inr bytes"
    and clear: "source_clear btn (cfields cell)"
  shows "\<exists>m1 co'. layout_cell vc btn cell = Inr (m1, co')
      \<and> uint co' = uint (cells_offset btn) - cell_size (cfields cell)
      \<and> same_below m1 (data (page btn)) (uint co')
      \<and> (source_apart btn (cfields cell) \<longrightarrow>
           payload m1 (cfields (repoint cell (InPage (uint co' + 8)))) = Inr bytes)
      \<and> ((\<forall>v\<in>set (varints cell). varint_roundtrip vc v) \<and> ctype cell = type btn \<longrightarrow>
           decode_cell vc (type btn) m1 (uint co') = Inr (repoint cell (InPage (uint co' + 8))))"
proof (cases "cfields cell")
  case (tableInternal cp)
  then have t: "type btn = PGTYPE_TABLE_INTERNAL" using ty by simp
  show ?thesis
    using layout_table_internal [OF t tableInternal inb, of vc] sz fits pay tableInternal t
    by (cases cell) (auto simp add: varints_def repoint_def decode_cell_def cellsize_defs)
next
  case (tableLeaf ds src)
  then have t: "type btn = PGTYPE_TABLE_LEAF" using ty by simp
  have p: "deref (data (page btn)) src (unat ds) = Inr bytes" using pay tableLeaf by simp
  have c: "source_clear btn (tableLeaf ds src)" using clear tableLeaf by simp
  have s: "8 + uint ds \<le> uint (cells_offset btn)" using sz tableLeaf by (simp add: cellsize_defs)
  have fv: "varint_fits vc ds" "varint_fits vc (key cell)"
    using fits tableLeaf by (simp_all add: varints_def)
  show ?thesis
    using layout_table_leaf [OF t tableLeaf inb s fv p c] tableLeaf t pgtype_distinct
    by (cases cell) (auto simp add: varints_def repoint_def decode_cell_def cellsize_defs)
next
  case (indexInternal pk cp)
  then have t: "type btn = PGTYPE_INDEX_INTERNAL" using ty by simp
  show ?thesis
    using layout_index_internal [OF t indexInternal inb, of vc] sz fits pay indexInternal t
      pgtype_distinct
    by (cases cell) (auto simp add: varints_def repoint_def decode_cell_def cellsize_defs)
next
  case (indexLeaf pk)
  then have t: "type btn = PGTYPE_INDEX_LEAF" using ty by simp
  show ?thesis
    using layout_index_leaf [OF t indexLeaf inb, of vc] sz fits pay indexLeaf t
      pgtype_distinct
    by (cases cell) (auto simp add: varints_def repoint_def decode_cell_def cellsize_defs)
qed

section \<open>Inserting a cell into a node\<close>


lemma cell_size_ge8: "8 \<le> cell_size fs"
  by (cases fs) (simp_all add: cellsize_defs)

lemma insertCell_ok:
  assumes lay: "node_layout btn"
    and ty: "fields_type (cfields cell) = type btn"
    and idx: "0 \<le> i" "i \<le> uint (n_cells btn)"
    and space: "cell_size (cfields cell) \<le> uint (cells_offset btn) - uint (free_offset btn)"
    and fits: "\<forall>v\<in>set (varints cell). varint_fits vc v"
    and pay: "payload (data (page btn)) (cfields cell) = Inr bytes"
    and clear: "source_clear btn (cfields cell)"
  shows "\<exists>m1 m3 co'.
      layout_cell vc btn cell = Inr (m1, co')
    \<and> chidb_Btree_insertCell vc btn i cell =
        Inr (btn\<lparr> page := (page btn)\<lparr> data := m3 \<rparr>, cells_offset := co',
                  n_cells := n_cells btn + 1, free_offset := free_offset btn + 2 \<rparr>)
    \<and> uint co' = uint (cells_offset btn) - cell_size (cfields cell)
    \<and> uint (n_cells btn + 1) = uint (n_cells btn) + 1
    \<and> uint (free_offset btn + 2) = uint (free_offset btn) + 2
    \<and> same_from m3 m1 (uint (free_offset btn) + 2)
    \<and> (\<forall>j. 0 \<le> j \<and> j < i \<longrightarrow>
          get2byte m3 (celloffset_array btn + j * 2) = get2byte (data (page btn)) (celloffset_array btn + j * 2))
    \<and> get2byte m3 (celloffset_array btn + i * 2) = Inr co'
    \<and> (\<forall>j. i < j \<and> j \<le> uint (n_cells btn) \<longrightarrow>
          get2byte m3 (celloffset_array btn + j * 2) =
          get2byte (data (page btn)) (celloffset_array btn + (j - 1) * 2))"
proof -
  let ?m = "data (page btn)"
  let ?a = "celloffset_array btn"
  let ?n = "uint (n_cells btn)"
  let ?fo = "uint (free_offset btn)"
  let ?co = "uint (cells_offset btn)"
  have a0: "0 \<le> ?a" and fo: "?fo = ?a + 2 * ?n" and inb: "?co \<le> int (length ?m)"
    using lay by (simp_all add: node_layout_def)
  have s8: "8 \<le> cell_size (cfields cell)" by (rule cell_size_ge8)
  have n0: "0 \<le> ?n" by simp
  have co16: "?co < 65536" using uint_lt2p [of "cells_offset btn"] by simp
  have sz: "cell_size (cfields cell) \<le> ?co" using space fo a0 n0 by linarith
  obtain m1 co' where L: "layout_cell vc btn cell = Inr (m1, co')"
    and co': "uint co' = ?co - cell_size (cfields cell)"
    and sb: "same_below m1 ?m (uint co')"
    using layout_cell_ok [OF ty inb sz fits pay clear] by blast
  have len1: "int (length m1) = int (length ?m)" using sb by (simp add: same_below_def)
  have fod: "?fo \<le> uint co'" using space co' by linarith
  have fo2: "?fo + 2 \<le> int (length ?m)" using space s8 inb by linarith
  define k where "k = nat ((?n - i) * 2)"
  have ki: "int k = (?n - i) * 2" using idx by (simp add: k_def)
  have t0: "0 \<le> ?a + i * 2" using a0 idx by simp
  have t1: "?a + i * 2 + int k \<le> int (length m1)" using ki fo fo2 len1 by (simp add: algebra_simps)
  obtain tail where tail: "rd m1 (?a + i * 2) k = Inr tail"
    using rd_ok [OF t0 t1] by blast
  have ltail: "length tail = k" using rd_length [OF tail] .
  have ltail': "int (length tail) = int k" using ltail by simp
  have w0: "0 \<le> ?a + i * 2 + 2" using t0 by simp
  have w1: "?a + i * 2 + 2 + int (length tail) \<le> int (length m1)"
    using ki fo fo2 len1 ltail' by (simp add: algebra_simps)
  obtain m2 where m2: "wr m1 (?a + i * 2 + 2) tail = Inr m2" and len2': "length m2 = length m1"
    using wr_step [OF w0 w1] by blast
  have len2: "int (length m2) = int (length m1)" using len2' by simp

  have p1: "?a + i * 2 + int (length (enc16 co')) \<le> int (length m2)"
    using ki fo fo2 len1 len2 idx by simp
  obtain m3 where m3: "wr m2 (?a + i * 2) (enc16 co') = Inr m3" and len3: "length m3 = length m2"
    using wr_step [OF t0 p1] by blast
  have ins: "chidb_Btree_insertCell vc btn i cell =
        Inr (btn\<lparr> page := (page btn)\<lparr> data := m3 \<rparr>, cells_offset := co',
                  n_cells := n_cells btn + 1, free_offset := free_offset btn + 2 \<rparr>)"
    using idx L tail m2 m3 by (simp add: chidb_Btree_insertCell_def put2byte_def k_def)
  have fo16: "?fo + 2 < 65536" using fod co' s8 co16 by linarith
  have ufo: "uint (free_offset btn + 2) = ?fo + 2"
    using fo16 by (simp add: uint_word_ariths)
  have "?n + 1 < 65536" using fo fo16 a0 n0 by linarith
  then have un: "uint (n_cells btn + 1) = ?n + 1"
    by (simp add: uint_word_ariths)
  have sf: "same_from m3 m1 (?fo + 2)"
  proof -
    have "same_from m2 m1 (?fo + 2)"
      using same_from_wr [OF same_from_refl m2, of "?fo + 2"] ki fo ltail by simp
    then show ?thesis
      using same_from_wr [OF _ m3, of m1 "?fo + 2"] ki fo idx by simp
  qed
  have lo: "get2byte m3 (?a + j * 2) = get2byte ?m (?a + j * 2)" if j: "0 \<le> j" "j < i" for j
  proof -
    have "rd m3 (?a + j * 2) 2 = rd m2 (?a + j * 2) 2"
      using rd_wr_below [OF m3, of "?a + j * 2" 2] j by simp
    also have "\<dots> = rd m1 (?a + j * 2) 2"
      using rd_wr_below [OF m2, of "?a + j * 2" 2] j by simp
    also have "\<dots> = rd ?m (?a + j * 2) 2"
      using sb j idx fo fod by (simp add: same_below_def)
    finally show ?thesis by (simp add: get2byte_def)
  qed
  have mid: "get2byte m3 (?a + i * 2) = Inr co'"
    using get2byte_put2byte [of m2 "?a + i * 2" co' m3] m3 by (simp add: put2byte_def)
  have hi: "get2byte m3 (?a + j * 2) = get2byte ?m (?a + (j - 1) * 2)"
    if j: "i < j" "j \<le> ?n" for j
  proof -
    have "rd m3 (?a + j * 2) 2 = rd m2 (?a + j * 2) 2"
      using rd_wr_above [OF m3, of "?a + j * 2" 2] j by simp
    also have "\<dots> = Inr (take 2 (drop (nat ((j - i - 1) * 2)) tail))"
      using rd_wr_inside [OF m2, of "?a + j * 2" 2] j ki ltail
      by (simp add: algebra_simps)
    also have "\<dots> = rd m1 (?a + i * 2 + int (nat ((j - i - 1) * 2))) 2"
      using rd_sub [OF tail, of "nat ((j - i - 1) * 2)" 2] j ki by simp
    also have "\<dots> = rd m1 (?a + (j - 1) * 2) 2"
      using j by (simp add: algebra_simps)
    also have "\<dots> = rd ?m (?a + (j - 1) * 2) 2"
      using sb j fo fod by (simp add: same_below_def)
    finally show ?thesis by (simp add: get2byte_def)
  qed
  show ?thesis
    using L ins co' un ufo sf lo mid hi by blast
qed

section \<open>Effect of an insertion, and reading the cell back\<close>


lemma repoint_repoint: "repoint (repoint cell p) q = repoint cell q"
  by (cases "cfields cell") (simp_all add: repoint_def)

lemma repoint_simps:
  "ctype (repoint cell p) = ctype cell" "key (repoint cell p) = key cell"
  by (cases "cfields cell"; simp add: repoint_def)+

lemma decode_cell_same_from:
  assumes "same_from m' m lim" and "lim \<le> d"
  shows "decode_cell vc ty m' d = decode_cell vc ty m d"
proof -
  have r: "\<And>p n. d \<le> p \<Longrightarrow> rd m' p n = rd m p n"
    using assms by (simp add: same_from_def)
  have g: "get4byte m' d = get4byte m d" "get4byte m' (d + 4) = get4byte m (d + 4)"
    "get4byte m' (d + 8) = get4byte m (d + 8)" "get4byte m' (d + 12) = get4byte m (d + 12)"
    "get_varint vc m' d = get_varint vc m d" "get_varint vc m' (d + 4) = get_varint vc m (d + 4)"
    by (simp_all add: get4byte_def get_varint_def r)
  show ?thesis
    by (simp add: decode_cell_def g)
qed

lemma payload_repoint_same_from:
  assumes "same_from m' m lim" and "lim \<le> d"
  shows "payload m' (cfields (repoint cell (InPage d))) = payload m (cfields (repoint cell (InPage d)))"
  using assms by (cases "cfields cell") (simp_all add: repoint_def same_from_def)

lemma source_apart_clear: "source_apart btn fs \<Longrightarrow> source_clear btn fs"
proof (cases fs)
  case (tableLeaf ds src)
  assume "source_apart btn fs"
  then show ?thesis
    using tableLeaf by (cases src) auto
qed simp_all

text \<open>
  C7: a single \<open>chidb_Btree_insertCell\<close> on a node with room for the cell. The node is
  laid out in its page (\<open>node_layout\<close>), the cell is of the variant of the node, the
  position is between \<open>0\<close> and \<open>n_cells\<close>, the free space \<open>cells_offset - free_offset\<close>
  is at least the serialized size of the cell, the varints of the cell fit their four
  bytes, the payload pointer can be read and, if it points into the page of the node,
  the payload does not overlap the place that \<open>memcpy\<close> copies it to. Then the call
  returns \<open>CHIDB_OK\<close>;
  \<open>cells_offset\<close> is smaller by the size of the cell, \<open>free_offset\<close> larger by 2 and
  \<open>n_cells\<close> larger by 1; the entries of the offset array before position \<open>i\<close> are
  unchanged, entry \<open>i\<close> holds the new \<open>cells_offset\<close>, and each entry \<open>j\<close> from
  \<open>i + 1\<close> to \<open>n_cells\<close> holds what entry \<open>j - 1\<close> held; the type, the right page, the
  position of the offset array and the page number are unchanged.
\<close>

theorem insertCell_frame:
  assumes lay: "node_layout btn"
    and ty: "fields_type (cfields cell) = type btn"
    and idx: "0 \<le> i" "i \<le> uint (n_cells btn)"
    and space: "cell_size (cfields cell) \<le> uint (cells_offset btn) - uint (free_offset btn)"
    and fits: "\<forall>v\<in>set (varints cell). varint_fits vc v"
    and pay: "payload (data (page btn)) (cfields cell) = Inr bytes"
    and clear: "source_clear btn (cfields cell)"
  shows "\<exists>btn'. chidb_Btree_insertCell vc btn i cell = Inr btn'
    \<and> uint (cells_offset btn') = uint (cells_offset btn) - cell_size (cfields cell)
    \<and> uint (free_offset btn') = uint (free_offset btn) + 2
    \<and> uint (n_cells btn') = uint (n_cells btn) + 1
    \<and> (\<forall>j. 0 \<le> j \<and> j < i \<longrightarrow>
          get2byte (data (page btn')) (celloffset_array btn + j * 2) =
          get2byte (data (page btn)) (celloffset_array btn + j * 2))
    \<and> get2byte (data (page btn')) (celloffset_array btn + i * 2) = Inr (cells_offset btn')
    \<and> (\<forall>j. i < j \<and> j \<le> uint (n_cells btn) \<longrightarrow>
          get2byte (data (page btn')) (celloffset_array btn + j * 2) =
          get2byte (data (page btn)) (celloffset_array btn + (j - 1) * 2))
    \<and> type btn' = type btn \<and> right_page btn' = right_page btn
    \<and> celloffset_array btn' = celloffset_array btn \<and> npage (page btn') = npage (page btn)"
proof -
  obtain m1 m3 co' where
    ins: "chidb_Btree_insertCell vc btn i cell =
        Inr (btn\<lparr> page := (page btn)\<lparr> data := m3 \<rparr>, cells_offset := co',
                  n_cells := n_cells btn + 1, free_offset := free_offset btn + 2 \<rparr>)"
    and f: "uint co' = uint (cells_offset btn) - cell_size (cfields cell)"
      "uint (n_cells btn + 1) = uint (n_cells btn) + 1"
      "uint (free_offset btn + 2) = uint (free_offset btn) + 2"
    and a: "\<forall>j. 0 \<le> j \<and> j < i \<longrightarrow>
          get2byte m3 (celloffset_array btn + j * 2) = get2byte (data (page btn)) (celloffset_array btn + j * 2)"
      "get2byte m3 (celloffset_array btn + i * 2) = Inr co'"
      "\<forall>j. i < j \<and> j \<le> uint (n_cells btn) \<longrightarrow>
          get2byte m3 (celloffset_array btn + j * 2) =
          get2byte (data (page btn)) (celloffset_array btn + (j - 1) * 2)"
    using insertCell_ok [OF lay ty idx space fits pay clear] by blast
  show ?thesis
    unfolding ins using f a by simp
qed

theorem insertCell_frame_witness:
  "\<exists>btn'. chidb_Btree_insertCell chidb_varint index_leaf_64 0
             \<lparr> ctype = PGTYPE_INDEX_LEAF, key = 5, cfields = indexLeaf 6 \<rparr> = Inr btn'
     \<and> uint (cells_offset btn') = 40 \<and> uint (free_offset btn') = 12
     \<and> uint (n_cells btn') = 2
     \<and> get2byte (data (page btn')) 8 = Inr 40
     \<and> get2byte (data (page btn')) 10 = Inr 52
     \<and> type btn' = PGTYPE_INDEX_LEAF \<and> right_page btn' = 0"
proof -
  let ?cell = "\<lparr> ctype = PGTYPE_INDEX_LEAF, key = 5, cfields = indexLeaf 6 \<rparr>"
  have lay: "node_layout index_leaf_64"
    by (simp add: node_layout_def index_leaf_64_def)
  have ty: "fields_type (cfields ?cell) = type index_leaf_64"
    by (simp add: index_leaf_64_def)
  have idx: "(0::int) \<le> 0" "0 \<le> uint (n_cells index_leaf_64)" by simp_all
  have space: "cell_size (cfields ?cell)
      \<le> uint (cells_offset index_leaf_64) - uint (free_offset index_leaf_64)"
    by (simp add: index_leaf_64_def cellsize_defs)
  have fits: "\<forall>v\<in>set (varints ?cell). varint_fits chidb_varint v"
    by (simp add: varints_def)
  have pay: "payload (data (page index_leaf_64)) (cfields ?cell) = Inr []"
    by simp
  have clear: "source_clear index_leaf_64 (cfields ?cell)"
    by simp
  obtain btn' where ins: "chidb_Btree_insertCell chidb_varint index_leaf_64 0 ?cell = Inr btn'"
    and f: "uint (cells_offset btn') = uint (cells_offset index_leaf_64) - cell_size (cfields ?cell)"
      "uint (free_offset btn') = uint (free_offset index_leaf_64) + 2"
      "uint (n_cells btn') = uint (n_cells index_leaf_64) + 1"
      "type btn' = type index_leaf_64" "right_page btn' = right_page index_leaf_64"
    and new: "get2byte (data (page btn')) (celloffset_array index_leaf_64 + 0 * 2) =
                Inr (cells_offset btn')"
    and shift: "\<forall>j. 0 < j \<and> j \<le> uint (n_cells index_leaf_64) \<longrightarrow>
          get2byte (data (page btn')) (celloffset_array index_leaf_64 + j * 2) =
          get2byte (data (page index_leaf_64)) (celloffset_array index_leaf_64 + (j - 1) * 2)"
    using insertCell_frame [OF lay ty idx space fits pay clear] by blast
  have co: "uint (cells_offset btn') = 40"
    using f(1) by (simp add: index_leaf_64_def cellsize_defs)
  then have "cells_offset btn' = 40"
    by (simp add: word_uint_eq_iff)
  then have g0: "get2byte (data (page btn')) 8 = Inr 40"
    using new by (simp add: index_leaf_64_def)
  have "0 < (1::int) \<and> 1 \<le> uint (n_cells index_leaf_64)"
    by (simp add: index_leaf_64_def)
  then have "get2byte (data (page btn')) (celloffset_array index_leaf_64 + 1 * 2) =
          get2byte (data (page index_leaf_64)) (celloffset_array index_leaf_64 + (1 - 1) * 2)"
    using shift by blast
  then have g1: "get2byte (data (page btn')) 10 = Inr 52"
    by (simp add: index_leaf_64_def mem_defs)
  show ?thesis
    using ins f co g0 g1 by (simp add: index_leaf_64_def)
qed

text \<open>
  C6 (amended): the claim is that a cell of legal size, inserted at a valid position, is
  read back from that position as it was. This holds when the free space of the node
  takes the cell and the two bytes of its entry in the offset array:
  \<open>cells_offset - free_offset\<close> is at least the size of the cell plus 2. The node is laid
  out in its page, the cell is of the variant and type of the node, the position is
  between \<open>0\<close> and \<open>n_cells\<close>, and the varints of the cell fit their four bytes and are
  decoded to the value that was encoded. The payload of a table leaf cell is read
  through its pointer when \<open>memcpy\<close> runs, after the two varints of the cell are written:
  a payload that lies in the page of the node must not overlap the bytes where the cell
  is laid out (\<open>source_apart\<close>); a payload outside the page is not touched. Then
  \<open>chidb_Btree_insertCell\<close> followed by
  \<open>chidb_Btree_getCell\<close> at the same position returns \<open>CHIDB_OK\<close> with the same type, key
  and variant fields; for a table leaf cell the size is the same and the payload pointer
  points into the page, at bytes equal to those that the pointer of the inserted cell
  pointed to before the call.
\<close>

theorem insertCell_getCell:
  assumes lay: "node_layout btn"
    and ty: "fields_type (cfields cell) = type btn"
    and ct: "ctype cell = type btn"
    and idx: "0 \<le> i" "i \<le> uint (n_cells btn)"
    and space: "cell_size (cfields cell) + 2 \<le> uint (cells_offset btn) - uint (free_offset btn)"
    and fits: "\<forall>v\<in>set (varints cell). varint_fits vc v"
    and rt: "\<forall>v\<in>set (varints cell). varint_roundtrip vc v"
    and pay: "payload (data (page btn)) (cfields cell) = Inr bytes"
    and apart: "source_apart btn (cfields cell)"
  shows "\<exists>btn' c'. chidb_Btree_insertCell vc btn i cell = Inr btn'
    \<and> chidb_Btree_getCell vc btn' i = Inr c'
    \<and> c' = repoint cell (InPage (uint (cells_offset btn') + 8))
    \<and> ctype c' = ctype cell \<and> key c' = key cell
    \<and> payload (data (page btn')) (cfields c') = Inr bytes"
proof -
  let ?m = "data (page btn)"
  have space': "cell_size (cfields cell) \<le> uint (cells_offset btn) - uint (free_offset btn)"
    using space by simp
  have clear: "source_clear btn (cfields cell)"
    using apart by (rule source_apart_clear)
  obtain m1 m3 co' where L: "layout_cell vc btn cell = Inr (m1, co')"
    and ins: "chidb_Btree_insertCell vc btn i cell =
        Inr (btn\<lparr> page := (page btn)\<lparr> data := m3 \<rparr>, cells_offset := co',
                  n_cells := n_cells btn + 1, free_offset := free_offset btn + 2 \<rparr>)"
    and co': "uint co' = uint (cells_offset btn) - cell_size (cfields cell)"
    and un: "uint (n_cells btn + 1) = uint (n_cells btn) + 1"
    and sf: "same_from m3 m1 (uint (free_offset btn) + 2)"
    and mid: "get2byte m3 (celloffset_array btn + i * 2) = Inr co'"
    using insertCell_ok [OF lay ty idx space' fits pay clear] by blast
  have inb: "uint (cells_offset btn) \<le> int (length ?m)" using lay by (simp add: node_layout_def)
  have "0 \<le> uint (free_offset btn)" by simp
  then have sz: "cell_size (cfields cell) \<le> uint (cells_offset btn)"
    using space by linarith
  let ?c' = "repoint cell (InPage (uint co' + 8))"
  have dec: "decode_cell vc (type btn) m1 (uint co') = Inr ?c'"
    and pl: "payload m1 (cfields ?c') = Inr bytes"
    using layout_cell_ok [OF ty inb sz fits pay clear] L rt ct apart by auto
  have lim: "uint (free_offset btn) + 2 \<le> uint co'" using space co' by linarith
  let ?btn' = "btn\<lparr> page := (page btn)\<lparr> data := m3 \<rparr>, cells_offset := co',
                  n_cells := n_cells btn + 1, free_offset := free_offset btn + 2 \<rparr>"
  have dec3: "decode_cell vc (type btn) m3 (uint co') = Inr ?c'"
    using decode_cell_same_from [OF sf lim] dec by simp
  have get: "chidb_Btree_getCell vc ?btn' i = Inr ?c'"
    using mid idx un dec3 by (simp add: chidb_Btree_getCell_def)
  have pl3: "payload m3 (cfields ?c') = Inr bytes"
    using payload_repoint_same_from [OF sf, of "uint co' + 8" cell] lim pl by simp
  show ?thesis
    unfolding ins using get pl3 by (simp add: repoint_simps)
qed

theorem insertCell_getCell_witness:
  "\<exists>btn' c'. chidb_Btree_insertCell chidb_varint leaf_64 0 cell_at_40 = Inr btn'
    \<and> chidb_Btree_getCell chidb_varint btn' 0 = Inr c'
    \<and> c' = repoint cell_at_40 (InPage (uint (cells_offset btn') + 8))
    \<and> ctype c' = PGTYPE_TABLE_LEAF \<and> key c' = 42
    \<and> payload (data (page btn')) (cfields c') = Inr [0xA1, 0xA2, 0xA3, 0xA4]"
proof -
  have lay: "node_layout leaf_64"
    by (simp add: node_layout_def leaf_64_def)
  have ty: "fields_type (cfields cell_at_40) = type leaf_64"
    by (simp add: cell_at_40_def leaf_64_def)
  have ct: "ctype cell_at_40 = type leaf_64"
    by (simp add: cell_at_40_def leaf_64_def)
  have idx: "(0::int) \<le> 0" "0 \<le> uint (n_cells leaf_64)" by simp_all
  have space: "cell_size (cfields cell_at_40) + 2
      \<le> uint (cells_offset leaf_64) - uint (free_offset leaf_64)"
    by (simp add: cell_at_40_def leaf_64_def cellsize_defs)
  have fits: "\<forall>v\<in>set (varints cell_at_40). varint_fits chidb_varint v"
    by (simp add: varints_def cell_at_40_def varint_fits_def chidb_varint_def)
  have rt: "\<forall>v\<in>set (varints cell_at_40). varint_roundtrip chidb_varint v"
    by (simp add: varints_def cell_at_40_def varint_roundtrip_def chidb_varint_def)
  have pay: "payload (data (page leaf_64)) (cfields cell_at_40) = Inr [0xA1, 0xA2, 0xA3, 0xA4]"
    by (simp add: cell_at_40_def leaf_64_def rd_def)
  have apart: "source_apart leaf_64 (cfields cell_at_40)"
    by (simp add: cell_at_40_def leaf_64_def)
  show ?thesis
    using insertCell_getCell [OF lay ty ct idx space fits rt pay apart]
    by (simp add: cell_at_40_def pgtype_defs)
qed

text \<open>
  The same insertion, evaluated: the cell is laid out at offset 52 and its data, copied
  from offset 40 to offset 60, are read back as they were.
\<close>

lemma insertCell_getCell_apart:
  "chidb_Btree_insertCell chidb_varint leaf_64 0 cell_at_40 = Inr leaf_64_apart
   \<and> chidb_Btree_getCell chidb_varint leaf_64_apart 0 =
       Inr \<lparr> ctype = PGTYPE_TABLE_LEAF, key = 42, cfields = tableLeaf 4 (InPage 60) \<rparr>
   \<and> payload (data (page leaf_64_apart)) (tableLeaf 4 (InPage 60)) =
       Inr [0xA1, 0xA2, 0xA3, 0xA4]"
proof -
  have "chidb_Btree_insertCell chidb_varint leaf_64 0 cell_at_40 = Inr leaf_64_apart"
    by (simp add: chidb_Btree_insertCell_def layout_cell_def leaf_64_def cell_at_40_def
        leaf_64_apart_def mem_defs chidb_varint_def pgtype_defs cellsize_defs)
  moreover have "chidb_Btree_getCell chidb_varint leaf_64_apart 0 =
       Inr \<lparr> ctype = PGTYPE_TABLE_LEAF, key = 42, cfields = tableLeaf 4 (InPage 60) \<rparr>"
    by (simp add: chidb_Btree_getCell_def decode_cell_def leaf_64_apart_def
        mem_defs chidb_varint_def pgtype_defs cellsize_defs)
  moreover have "payload (data (page leaf_64_apart)) (tableLeaf 4 (InPage 60)) =
       Inr [0xA1, 0xA2, 0xA3, 0xA4]"
    by (simp add: leaf_64_apart_def rd_def)
  ultimately show ?thesis by simp
qed

text \<open>
  Without \<open>source_apart\<close> the payload need not come back. The four bytes of data of
  \<open>cell_at_56\<close> are at offset 56 of the page of \<open>leaf_64\<close>, where they are
  \<open>11 22 33 44\<close>. \<open>chidb_Btree_insertCell\<close> lays the cell out at offset 52 and writes the
  varint of the key over the bytes 56 to 59 before \<open>memcpy\<close> reads them: the payload
  stored, and read back through the cell that \<open>chidb_Btree_getCell\<close> returns, is
  \<open>80 80 80 2A\<close>. The node and the cell differ from those of the insertion above by
  the payload pointer only: the free space takes the cell and its entry, and \<open>memcpy\<close>
  itself copies between bytes that do not overlap (\<open>source_clear\<close>).
\<close>

lemma insertCell_getCell_aliased:
  "payload (data (page leaf_64)) (cfields cell_at_56) = Inr [0x11, 0x22, 0x33, 0x44]
   \<and> cell_size (cfields cell_at_56) + 2 \<le> uint (cells_offset leaf_64) - uint (free_offset leaf_64)
   \<and> source_clear leaf_64 (cfields cell_at_56)
   \<and> \<not> source_apart leaf_64 (cfields cell_at_56)
   \<and> chidb_Btree_insertCell chidb_varint leaf_64 0 cell_at_56 = Inr leaf_64_aliased
   \<and> chidb_Btree_getCell chidb_varint leaf_64_aliased 0 =
       Inr \<lparr> ctype = PGTYPE_TABLE_LEAF, key = 42, cfields = tableLeaf 4 (InPage 60) \<rparr>
   \<and> payload (data (page leaf_64_aliased)) (tableLeaf 4 (InPage 60)) =
       Inr [0x80, 0x80, 0x80, 0x2A]"
proof -
  have "chidb_Btree_insertCell chidb_varint leaf_64 0 cell_at_56 = Inr leaf_64_aliased"
    by (simp add: chidb_Btree_insertCell_def layout_cell_def leaf_64_def cell_at_56_def
        leaf_64_aliased_def mem_defs chidb_varint_def pgtype_defs cellsize_defs)
  moreover have "chidb_Btree_getCell chidb_varint leaf_64_aliased 0 =
       Inr \<lparr> ctype = PGTYPE_TABLE_LEAF, key = 42, cfields = tableLeaf 4 (InPage 60) \<rparr>"
    by (simp add: chidb_Btree_getCell_def decode_cell_def leaf_64_aliased_def
        mem_defs chidb_varint_def pgtype_defs cellsize_defs)
  moreover have "payload (data (page leaf_64)) (cfields cell_at_56) = Inr [0x11, 0x22, 0x33, 0x44]"
    "cell_size (cfields cell_at_56) + 2 \<le> uint (cells_offset leaf_64) - uint (free_offset leaf_64)"
    "source_clear leaf_64 (cfields cell_at_56)"
    "\<not> source_apart leaf_64 (cfields cell_at_56)"
    "payload (data (page leaf_64_aliased)) (tableLeaf 4 (InPage 60)) =
       Inr [0x80, 0x80, 0x80, 0x2A]"
    by (simp_all add: cell_at_56_def leaf_64_def leaf_64_aliased_def rd_def cellsize_defs)
  ultimately show ?thesis by simp
qed

text \<open>
  The claim C6 as stated fails when the cell just fits, that is when the free space
  equals the size of the cell, as the free-space predicate of section 4.3 of the
  specification and \<open>notEnoughSpace\<close> allow. On an empty table leaf node of a 512-byte
  page, a cell with 496 bytes of data takes the 504 free bytes; its entry in the offset
  array is then written over the first two bytes of the cell, and \<open>chidb_Btree_getCell\<close>
  reads the size 131568 back instead of 496.
\<close>

theorem insertCell_getCell_tight_counterexample:
  "node_layout empty_leaf_512
   \<and> fields_type (cfields cell496) = type empty_leaf_512
   \<and> cell_size (cfields cell496) = 504
   \<and> uint (cells_offset empty_leaf_512) - uint (free_offset empty_leaf_512) = 504
   \<and> chidb_Btree_insertCell chidb_varint empty_leaf_512 0 cell496 = Inr tight_leaf_after
   \<and> chidb_Btree_getCell chidb_varint tight_leaf_after 0 =
       Inr \<lparr> ctype = PGTYPE_TABLE_LEAF, key = 1,
             cfields = tableLeaf 131568 (InPage 16) \<rparr>"
proof -
  have "chidb_Btree_insertCell chidb_varint empty_leaf_512 0 cell496 = Inr tight_leaf_after"
    by (simp add: chidb_Btree_insertCell_def layout_cell_def empty_leaf_512_def cell496_def
        tight_leaf_after_def mem_defs chidb_varint_def pgtype_defs cellsize_defs)
  moreover have "chidb_Btree_getCell chidb_varint tight_leaf_after 0 =
       Inr \<lparr> ctype = PGTYPE_TABLE_LEAF, key = 1,
             cfields = tableLeaf 131568 (InPage 16) \<rparr>"
    by (simp add: chidb_Btree_getCell_def decode_cell_def tight_leaf_after_def
        mem_defs chidb_varint_def pgtype_defs cellsize_defs)
  moreover have "node_layout empty_leaf_512"
    by (simp add: node_layout_def empty_leaf_512_def)
  ultimately show ?thesis
    by (simp add: empty_leaf_512_def cell496_def cellsize_defs)
qed

section \<open>Running the model\<close>

text \<open>
  The model is run by rewriting. The rules below make the simplifier evaluate the first
  argument of a sequencing step before it looks at the rest.
\<close>

lemma bnd_weak_cong: "r = r' \<Longrightarrow> bnd r k = bnd r' k"
  by simp

lemma seq_weak_cong: "r = r' \<Longrightarrow> seq r k = seq r' k"
  by simp

lemma Let_weak_cong: "a = b \<Longrightarrow> Let a t = Let b t"
  by simp

lemma seq_Inr [simp]: "seq (Inr x, bt) k = k x bt"
  by (simp add: seq_def)

lemma seq_Inl [simp]: "seq (Inl e, bt) k = (Inl e, bt)"
  by (simp add: seq_def)

lemmas pager_defs =
  chidb_Pager_open_def chidb_Pager_setPageSize_def chidb_Pager_readHeader_def
  chidb_Pager_allocatePage_def chidb_Pager_readPage_def chidb_Pager_writePage_def
  chidb_Pager_releaseMemPage_def pad_to_def DEFAULT_PAGE_SIZE_def

lemmas node_defs =
  chidb_Btree_getNodeByPage_def chidb_Btree_freeMemNode_def init_file_header_def
  chidb_Btree_initEmptyNode_def chidb_Btree_newNode_def chidb_Btree_writeNode_def magic_def

lemma open_fresh: "chidb_Btree_open [] = Inr fresh"
  apply (simp add: chidb_Btree_open_def pager_defs node_defs mem_defs pgtype_defs fresh_def fresh_page1_def
      cong: bnd_weak_cong Let_weak_cong)
  apply (simp add: replicate_num)
  done

lemma getNode_fresh: "chidb_Btree_getNodeByPage fresh 1 = Inr fresh_root"
  by (simp add: pager_defs node_defs mem_defs pgtype_defs fresh_def fresh_root_def fresh_page1_def
      cong: bnd_weak_cong Let_weak_cong)

lemma insert_fresh:
  "chidb_Btree_insert chidb_varint fresh 1 cell42 = (Inl NO_RETURN_VALUE, split_empty)"
  by (simp add: chidb_Btree_insert_def notEnoughSpace_def chidb_Btree_insertNonFull_def
      chidb_Btree_split_def pager_defs node_defs mem_defs pgtype_defs cellsize_defs fresh_def fresh_page1_def
      file_header_def split_empty_def cell42_def
      cong: bnd_weak_cong Let_weak_cong seq_weak_cong)

lemma insertInTable_42:
  "chidb_Btree_insertInTable vc bt 1 42 [0xDE, 0xAD, 0xBE, 0xEF] 4 =
   chidb_Btree_insert vc bt 1 cell42"
  by (simp add: chidb_Btree_insertInTable_def cell42_def pgtype_defs)

lemma insertCell_fresh: "chidb_Btree_insertCell chidb_varint fresh_root 0 cell42 = Inr root42"
  apply (simp add: chidb_Btree_insertCell_def layout_cell_def chidb_varint_def
      mem_defs pgtype_defs cellsize_defs fresh_root_def
      fresh_page1_def file_header_def stored42_def root42_def cell42_def cong: bnd_weak_cong Let_weak_cong)
  apply (simp add: replicate_num)?
  done

lemma writeNode_root42: "chidb_Btree_writeNode fresh root42 = (Inr (), db42)"
  apply (simp add: pager_defs node_defs mem_defs pgtype_defs fresh_def fresh_page1_def
      file_header_def stored42_def root42_def db42_def
      cong: bnd_weak_cong Let_weak_cong)
  apply (simp add: replicate_num)?
  done

lemma insert_db42:
  "chidb_Btree_insert chidb_varint db42 1 cell42 = (Inl NO_RETURN_VALUE, db42_again)"
  apply (simp add: chidb_Btree_insert_def notEnoughSpace_def chidb_Btree_insertNonFull_def
      chidb_Btree_split_def copy_cells.simps chidb_Btree_getCell_def decode_cell_def
      chidb_Btree_insertCell_def layout_cell_def chidb_varint_def detach_def
      pager_defs node_defs mem_defs pgtype_defs cellsize_defs fresh_page1_def
      file_header_def stored42_def db42_def db42_again_def cell42_def
      cong: bnd_weak_cong Let_weak_cong seq_weak_cong)
  apply (simp add: replicate_num)?
  done

lemma db42_changed: "f (pager db42_again) \<noteq> f (pager db42)"
proof -
  have "length (f (pager db42_again)) \<noteq> length (f (pager db42))"
    by (simp add: fresh_page1_def file_header_def stored42_def db42_def db42_again_def)
  then show ?thesis by metis
qed

section \<open>Opening a file\<close>

text \<open>
  C8: \<open>chidb_Btree_open\<close> on a name that stands for no file creates the file \<open>fresh\<close>. It is
  1024 bytes long; its bytes 0 to 15 are \<open>SQLite format 3\<close> and a zero byte; its bytes 16
  and 17 are \<open>04 00\<close>; at offset 100 of page 1 there is the header of a table leaf node
  with type \<open>0D\<close>, free offset 108, no cells and cells offset 1024, which is also what
  \<open>chidb_Btree_getNodeByPage\<close> loads from page 1.
\<close>

theorem open_creates_file:
  "chidb_Btree_open [] = Inr fresh
   \<and> length (f (pager fresh)) = 1024
   \<and> take 16 (f (pager fresh)) = map of_char ''SQLite format 3'' @ [0]
   \<and> take 2 (drop 16 (f (pager fresh))) = [0x04, 0x00]
   \<and> get1byte (f (pager fresh)) 100 = Inr 0x0D
   \<and> get2byte (f (pager fresh)) 101 = Inr 108
   \<and> get2byte (f (pager fresh)) 103 = Inr 0
   \<and> get2byte (f (pager fresh)) 105 = Inr 1024
   \<and> chidb_Btree_getNodeByPage fresh 1 = Inr fresh_root
   \<and> type fresh_root = PGTYPE_TABLE_LEAF \<and> n_cells fresh_root = 0
   \<and> cells_offset fresh_root = 1024 \<and> free_offset fresh_root = 108"
proof -
  have "length (f (pager fresh)) = 1024"
    "take 16 (f (pager fresh)) = map of_char ''SQLite format 3'' @ [0]"
    "take 2 (drop 16 (f (pager fresh))) = [0x04, 0x00]"
    "get1byte (f (pager fresh)) 100 = Inr 0x0D"
    "get2byte (f (pager fresh)) 101 = Inr 108"
    "get2byte (f (pager fresh)) 103 = Inr 0"
    "get2byte (f (pager fresh)) 105 = Inr 1024"
    by (simp_all add: fresh_def fresh_page1_def mem_defs)
  moreover have "type fresh_root = PGTYPE_TABLE_LEAF" "n_cells fresh_root = 0"
    "cells_offset fresh_root = 1024" "free_offset fresh_root = 108"
    by (simp_all add: fresh_root_def pgtype_defs)
  ultimately show ?thesis
    using open_fresh getNode_fresh by simp
qed

text \<open>
  The header check of \<open>chidb_Btree_open\<close> rejects every file whose page cache field, the
  four bytes at offset 48, holds 20000, whatever the rest of the header is; a file that
  is opened holds another value there.
\<close>

lemma open_rejects_20000:
  assumes "100 \<le> length contents" and "dec32 (take 4 (drop 0x30 contents)) = 20000"
  shows "chidb_Btree_open contents = Inl CHIDB_ECORRUPTHEADER"
proof -
  have "contents \<noteq> []" using assms(1) by auto
  moreover have "take 4 (drop 48 (take 100 contents)) = take 4 (drop 48 contents)"
    by (simp add: drop_take)
  ultimately show ?thesis
    using assms
    by (simp add: chidb_Btree_open_def chidb_Pager_open_def chidb_Pager_readHeader_def)
qed

text \<open>
  C1 (the code differs): the claim is that \<open>open\<close> accepts the headers whose page cache
  field is 20000, the value that \<open>chidb_Btree_initEmptyNode\<close> writes, so that a file made
  by this engine can be opened again. The source returns \<open>CHIDB_ECORRUPTHEADER\<close> when the
  field equals 20000: the file that \<open>chidb_Btree_open\<close> has just created is rejected.
\<close>

theorem reopen_fresh_fails:
  "chidb_Btree_open [] = Inr fresh
   \<and> get4byte (f (pager fresh)) 0x30 = Inr 20000
   \<and> chidb_Btree_open (f (pager fresh)) = Inl CHIDB_ECORRUPTHEADER"
proof -
  have "get4byte (f (pager fresh)) 0x30 = Inr 20000"
    by (simp add: fresh_def fresh_page1_def mem_defs)
  moreover have "chidb_Btree_open (f (pager fresh)) = Inl CHIDB_ECORRUPTHEADER"
    by (rule open_rejects_20000) (simp_all add: fresh_def fresh_page1_def mem_defs)
  ultimately show ?thesis using open_fresh by simp
qed

section \<open>Writing a node\<close>

text \<open>
  \<open>chidb_Btree_writeNode\<close> never returns \<open>CHIDB_EIO\<close>, whatever the pager does.
\<close>

lemma writeNode_never_EIO: "fst (chidb_Btree_writeNode bt btn) \<noteq> Inl CHIDB_EIO"
  by (auto simp add: chidb_Btree_writeNode_def Let_def bnd_eq_Inl put1byte_def put2byte_def
      put4byte_def split: sum.splits prod.splits if_splits dest: wr_Inl)

text \<open>
  C9 (the code differs): the claim is that \<open>writeNode\<close> returns the I/O error that
  \<open>writePage\<close> reports. The source calls \<open>chidb_Pager_writePage\<close>, drops its status and
  returns \<open>CHIDB_OK\<close>. On a device that rejects writes, \<open>chidb_Pager_writePage\<close> of the
  root page reports \<open>CHIDB_EIO\<close> and \<open>chidb_Btree_writeNode\<close> of the root returns
  \<open>CHIDB_OK\<close>, where \<open>chidb_Btree_initEmptyNode\<close> returns the \<open>CHIDB_EIO\<close>.
\<close>

theorem writeNode_drops_EIO:
  "chidb_Pager_writePage (pager fresh_failing) (page fresh_root) =
     (Inl CHIDB_EIO, pager fresh_failing)
   \<and> chidb_Btree_writeNode fresh_failing fresh_root = (Inr (), fresh_failing)
   \<and> chidb_Btree_initEmptyNode fresh_failing 1 PGTYPE_TABLE_LEAF =
       (Inl CHIDB_EIO, fresh_failing)"
  by (simp add: pager_defs node_defs mem_defs pgtype_defs fresh_def fresh_root_def
      fresh_page1_def fresh_failing_def
      cong: bnd_weak_cong Let_weak_cong)

section \<open>Insert and find\<close>

text \<open>
  The two branches of \<open>chidb_Btree_insert\<close>. When \<open>notEnoughSpace\<close> is false, that is when
  the free space of the root is smaller than the cell, the call is
  \<open>chidb_Btree_insertNonFull\<close> and nothing else. When it is true, that is when the root
  has room, no path through the function returns \<open>CHIDB_OK\<close>.
\<close>

lemma insert_without_room:
  assumes "chidb_Btree_getNodeByPage bt nroot = Inr rbtn"
    and "notEnoughSpace rbtn btc = Inr False"
  shows "chidb_Btree_insert vc bt nroot btc = chidb_Btree_insertNonFull bt nroot btc"
  using assms by (simp add: chidb_Btree_insert_def)

lemma seq_not_OK: "(\<And>x bt. fst (k x bt) \<noteq> Inr y) \<Longrightarrow> fst (seq r k) \<noteq> Inr y"
  by (cases r) (auto simp add: seq_def split: sum.splits)

lemma insert_with_room:
  assumes "chidb_Btree_getNodeByPage bt nroot = Inr rbtn"
    and "notEnoughSpace rbtn btc = Inr True"
  shows "fst (chidb_Btree_insert vc bt nroot btc) \<noteq> Inr ()"
  using assms
  by (simp add: chidb_Btree_insert_def Let_def) (intro seq_not_OK, simp)

text \<open>
  C3 (the code differs): the claim is that \<open>insert\<close> goes to \<open>insertNonFull\<close> when the root
  has room for the cell, and otherwise splits the root and then calls \<open>insertNonFull\<close>
  and returns its status. The source tests \<open>!notEnoughSpace(rbtn, btc)\<close>, and
  \<open>notEnoughSpace\<close> is \<open>1\<close> when the free space is at least the size of the cell. On the
  new database the root has 916 free bytes and the cell takes 12, yet the root is split:
  the file becomes \<open>split_empty\<close>, with an internal node in page 1 and a second page, and
  the end of the function is reached without a call of \<open>chidb_Btree_insertNonFull\<close> and
  without a status. \<open>chidb_Btree_insertNonFull\<close> would have returned \<open>CHIDB_OK\<close>.
\<close>

theorem insert_splits_root_with_room:
  "chidb_Btree_getNodeByPage fresh 1 = Inr fresh_root
   \<and> uint (cells_offset fresh_root) - uint (free_offset fresh_root) = 916
   \<and> cell_size (cfields cell42) = 12
   \<and> notEnoughSpace fresh_root cell42 = Inr True
   \<and> chidb_Btree_insert chidb_varint fresh 1 cell42 = (Inl NO_RETURN_VALUE, split_empty)
   \<and> chidb_Btree_insertNonFull fresh 1 cell42 = (Inr (), fresh)"
proof -
  have "uint (cells_offset fresh_root) - uint (free_offset fresh_root) = 916"
    "cell_size (cfields cell42) = 12"
    "notEnoughSpace fresh_root cell42 = Inr True"
    by (simp_all add: notEnoughSpace_def fresh_root_def cell42_def cellsize_defs pgtype_defs)
  then show ?thesis
    using getNode_fresh insert_fresh by (simp add: chidb_Btree_insertNonFull_def)
qed

text \<open>
  C2 (the code differs): the claim is that \<open>find(k)\<close> after \<open>insert(k, v)\<close> returns \<open>v\<close>, and
  that on a new file \<open>insertInTable\<close> of key 42 with the data \<open>DE AD BE EF\<close> returns \<open>Ok\<close>
  and \<open>find\<close> of key 42 then returns these four bytes. In the source
  \<open>chidb_Btree_insertNonFull\<close> is empty and \<open>chidb_Btree_insert\<close> does not call it here:
  the call splits the empty root and ends without a status, no cell is stored, and
  \<open>chidb_Btree_find\<close> of key 42, with any fuel from 2 on, returns \<open>CHIDB_ENOTFOUND\<close>.
\<close>

theorem insert_then_find_fresh:
  "chidb_Btree_open [] = Inr fresh
   \<and> chidb_Btree_insertInTable chidb_varint fresh 1 42 [0xDE, 0xAD, 0xBE, 0xEF] 4 =
       (Inl NO_RETURN_VALUE, split_empty)
   \<and> chidb_Btree_find (Suc (Suc n)) chidb_varint split_empty 1 42 = Some (Inl CHIDB_ENOTFOUND)"
proof -
  have "chidb_Btree_find (Suc (Suc n)) chidb_varint split_empty 1 42 = Some (Inl CHIDB_ENOTFOUND)"
    by (simp add: find_loop.simps pager_defs node_defs mem_defs pgtype_defs fresh_page1_def
        file_header_def split_empty_def
        cong: bnd_weak_cong Let_weak_cong)
  then show ?thesis
    using open_fresh insert_fresh by (simp add: insertInTable_42)
qed

text \<open>
  \<open>chidb_Btree_insert\<close> never returns \<open>CHIDB_EDUPLICATE\<close>, for any file, root page and
  cell; neither does any of the functions that it calls.
\<close>

lemma bnd_neq: "r \<noteq> Inl e \<Longrightarrow> (\<And>x. k x \<noteq> Inl e) \<Longrightarrow> bnd r k \<noteq> Inl e"
  by (cases r) simp_all

lemma seq_neq:
  "fst r \<noteq> Inl e \<Longrightarrow> (\<And>x bt. fst (k x bt) \<noteq> Inl e) \<Longrightarrow> fst (seq r k) \<noteq> Inl e"
  by (cases r) (auto simp add: seq_def split: sum.splits)

lemma mem_neq:
  "rd m off n \<noteq> Inl CHIDB_EDUPLICATE" "wr m off bs \<noteq> Inl CHIDB_EDUPLICATE"
  "get1byte m off \<noteq> Inl CHIDB_EDUPLICATE" "get2byte m off \<noteq> Inl CHIDB_EDUPLICATE"
  "get4byte m off \<noteq> Inl CHIDB_EDUPLICATE" "get_varint vc m off \<noteq> Inl CHIDB_EDUPLICATE"
  "put1byte m off b \<noteq> Inl CHIDB_EDUPLICATE" "put2byte m off v \<noteq> Inl CHIDB_EDUPLICATE"
  "put4byte m off w \<noteq> Inl CHIDB_EDUPLICATE" "put_varint vc m off w \<noteq> Inl CHIDB_EDUPLICATE"
  by (simp_all add: rd_def wr_def get1byte_def get2byte_def get4byte_def get_varint_def
      put1byte_def put2byte_def put4byte_def put_varint_def bnd_neq)

lemma memcpy_neq: "memcpy m dst src n \<noteq> Inl CHIDB_EDUPLICATE"
  by (cases src) (simp_all add: bnd_neq mem_neq)

lemma getNodeByPage_neq: "chidb_Btree_getNodeByPage bt n \<noteq> Inl CHIDB_EDUPLICATE"
  unfolding chidb_Btree_getNodeByPage_def Let_def
  by (intro bnd_neq) (simp_all add: chidb_Pager_readPage_def mem_neq)

lemma init_file_header_neq: "init_file_header m ps \<noteq> Inl CHIDB_EDUPLICATE"
  unfolding init_file_header_def
  by (intro bnd_neq) (simp_all add: mem_neq)

lemma writePage_neq: "fst (chidb_Pager_writePage p pg) \<noteq> Inl CHIDB_EDUPLICATE"
  by (simp add: chidb_Pager_writePage_def Let_def)

lemma initEmptyNode_neq: "fst (chidb_Btree_initEmptyNode bt n ty) \<noteq> Inl CHIDB_EDUPLICATE"
proof (cases "chidb_Pager_readPage (pager bt) n")
  case (Inl st)
  then have "st \<noteq> CHIDB_EDUPLICATE"
    by (auto simp add: chidb_Pager_readPage_def split: if_splits)
  then show ?thesis using Inl by (simp add: chidb_Btree_initEmptyNode_def)
next
  case (Inr pg)
  define d :: int where "d = (if n = 1 then 100 else 0)"
  define written where "written =
                 bnd (if n = 1 then init_file_header (data pg) (page_size (pager bt))
                      else Inr (data pg)) (\<lambda>m.
                 bnd (put1byte m d ty) (\<lambda>m.
                 bnd (put2byte m (d + 1)
                        ((if ty = 0x05 \<or> ty = 0x02 then 12 else 8) + (if n = 1 then 100 else 0))) (\<lambda>m.
                 bnd (put2byte m (d + 3) 0) (\<lambda>m.
                 bnd (put2byte m (d + 5) (page_size (pager bt))) (\<lambda>m.
                 bnd (put1byte m (d + 7) 0) (\<lambda>m.
                   if ty = 0x05 \<or> ty = 0x02 then put4byte m (d + 8) 0 else Inr m))))))"
  have w: "written \<noteq> Inl CHIDB_EDUPLICATE"
    unfolding written_def
    by (intro bnd_neq) (simp_all add: mem_neq init_file_header_neq)
  have eq: "chidb_Btree_initEmptyNode bt n ty =
      (case written of
         Inl e \<Rightarrow> (Inl e, bt)
       | Inr m \<Rightarrow>
           (case chidb_Pager_writePage (pager bt) (pg\<lparr> data := m \<rparr>) of
              (Inl st, p) \<Rightarrow> (Inl st, bt\<lparr> pager := p \<rparr>)
            | (Inr u, p) \<Rightarrow>
                (chidb_Pager_releaseMemPage p (pg\<lparr> data := m \<rparr>), bt\<lparr> pager := p \<rparr>)))"
    using Inr by (simp add: chidb_Btree_initEmptyNode_def written_def d_def Let_def)
  show ?thesis
  proof (cases written)
    case (Inl e)
    then show ?thesis using w eq by simp
  next
    case m: (Inr m)
    show ?thesis
      using writePage_neq [of "pager bt" "pg\<lparr> data := m \<rparr>"] eq m
      by (auto simp add: chidb_Pager_releaseMemPage_def split: prod.splits sum.splits)
  qed
qed

lemma newNode_neq: "fst (chidb_Btree_newNode bt ty) \<noteq> Inl CHIDB_EDUPLICATE"
  using initEmptyNode_neq
  by (auto simp add: chidb_Btree_newNode_def bnd_eq_Inl split: prod.splits)
    (metis fst_conv)

lemma writeNode_neq: "fst (chidb_Btree_writeNode bt btn) \<noteq> Inl CHIDB_EDUPLICATE"
  by (auto simp add: chidb_Btree_writeNode_def Let_def bnd_eq_Inl put1byte_def put2byte_def
      put4byte_def split: sum.splits prod.splits if_splits dest: wr_Inl)

lemma decode_cell_neq: "decode_cell vc ty m d \<noteq> Inl CHIDB_EDUPLICATE"
  unfolding decode_cell_def
  by (simp add: bnd_neq mem_neq)

lemma getCell_neq: "chidb_Btree_getCell vc btn i \<noteq> Inl CHIDB_EDUPLICATE"
  unfolding chidb_Btree_getCell_def
  by (intro bnd_neq) (simp_all add: mem_neq decode_cell_neq)

lemma layout_cell_neq: "layout_cell vc btn cell \<noteq> Inl CHIDB_EDUPLICATE"
  unfolding layout_cell_def Let_def
  by (cases "cfields cell") (simp_all add: bnd_neq mem_neq memcpy_neq)

lemma insertCell_neq: "chidb_Btree_insertCell vc btn i cell \<noteq> Inl CHIDB_EDUPLICATE"
  unfolding chidb_Btree_insertCell_def
  by (simp add: bnd_neq mem_neq layout_cell_neq split_def)

lemma copy_cells_neq: "copy_cells vc rbtn cbtn i \<noteq> Inl CHIDB_EDUPLICATE"
proof (induction vc rbtn cbtn i rule: copy_cells.induct)
  case (1 vc rbtn cbtn i)
  show ?case
  proof (cases "i < uint (n_cells rbtn)")
    case False
    then show ?thesis by (simp add: copy_cells.simps [of vc rbtn cbtn i])
  next
    case True
    then show ?thesis
      using "1.IH" getCell_neq [of vc rbtn i] insertCell_neq [of vc cbtn i]
      by (subst copy_cells.simps) (auto split: sum.splits)
  qed
qed

lemma notEnoughSpace_neq: "notEnoughSpace btn btc \<noteq> Inl CHIDB_EDUPLICATE"
  unfolding notEnoughSpace_def Let_def
  by (intro bnd_neq) (simp_all split: fields.splits)

lemmas part_neq =
  getNodeByPage_neq notEnoughSpace_neq newNode_neq copy_cells_neq writeNode_neq
  initEmptyNode_neq

lemma insert_never_duplicate:
  "fst (chidb_Btree_insert vc bt nroot btc) \<noteq> Inl CHIDB_EDUPLICATE"
  unfolding chidb_Btree_insert_def Let_def
  apply (rule seq_neq, simp add: part_neq)
  apply (rule seq_neq, simp add: part_neq)
  apply (simp add: chidb_Btree_insertNonFull_def del: copy_cells.simps)
  apply (rule impI)
  apply (rule seq_neq, simp add: part_neq)
  apply (rule seq_neq, simp add: part_neq)
  apply (rule seq_neq, simp add: part_neq del: copy_cells.simps)
  apply (rule seq_neq, simp add: part_neq)
  apply (rule seq_neq, simp add: chidb_Btree_freeMemNode_def chidb_Pager_releaseMemPage_def)
  apply (rule seq_neq, simp add: part_neq)
  apply (rule seq_neq, simp add: chidb_Btree_freeMemNode_def chidb_Pager_releaseMemPage_def)
  apply (rule seq_neq, simp add: part_neq)
  apply (rule seq_neq, simp add: part_neq)
  apply (rule seq_neq, simp add: part_neq)
  apply (rule seq_neq, simp add: chidb_Btree_freeMemNode_def chidb_Pager_releaseMemPage_def)
  apply (rule seq_neq, simp add: chidb_Btree_split_def)
  apply simp
  done

text \<open>
  C4 (the code differs): the claim is that inserting a key that is in the tree returns
  \<open>Duplicate\<close> and changes no page. \<open>db42\<close> is the new database with key 42 stored in its
  root by \<open>chidb_Btree_insertCell\<close> and \<open>chidb_Btree_writeNode\<close>; \<open>chidb_Btree_find\<close> finds
  the key there. \<open>chidb_Btree_insertInTable\<close> of key 42 into it does not return
  \<open>CHIDB_EDUPLICATE\<close>: it splits the root, which leaves another file, of two pages, and
  ends without a status.
\<close>

theorem insert_present_key:
  "chidb_Btree_insertCell chidb_varint fresh_root 0 cell42 = Inr root42
   \<and> chidb_Btree_writeNode fresh root42 = (Inr (), db42)
   \<and> chidb_Btree_find (Suc n) chidb_varint db42 1 42 = Some (Inr ([0xDE, 0xAD, 0xBE, 0xEF], 4))
   \<and> chidb_Btree_insertInTable chidb_varint db42 1 42 [0xDE, 0xAD, 0xBE, 0xEF] 4 =
       (Inl NO_RETURN_VALUE, db42_again)
   \<and> f (pager db42_again) \<noteq> f (pager db42)"
proof -
  have "chidb_Btree_find (Suc n) chidb_varint db42 1 42 = Some (Inr ([0xDE, 0xAD, 0xBE, 0xEF], 4))"
    by (simp add: find_loop.simps chidb_Btree_getCell_def decode_cell_def chidb_varint_def
        pager_defs node_defs mem_defs pgtype_defs cellsize_defs fresh_page1_def
        file_header_def stored42_def db42_def
        cong: bnd_weak_cong Let_weak_cong)
  then show ?thesis
    using insertCell_fresh writeNode_root42 insert_db42 db42_changed
    by (simp add: insertInTable_42)
qed

end
